theory Spec2Isabelle
  imports Main "HOL-Library.Multiset"
begin

section \<open>JavaScript numbers as the engine uses them\<close>

text \<open>
  The engine computes with JavaScript numbers: sums of the integer piece values, the two
  sentinels \<open>-Infinity\<close> and \<open>Infinity\<close>, and \<open>NaN\<close>, which appears when \<open>undefined\<close>
  (a key missing from \<open>PIECE_VALUES\<close>) reaches arithmetic. All sums are of at most 64
  integers of magnitude at most 900, so they are exact in a double and are modelled by
  \<open>int\<close>.

  A variable that TypeScript types as \<open>number\<close> can hold something else at run time.
  \<open>PIECE_VALUES\<close> is an object literal, so \<open>PIECE_VALUES[key]\<close> also answers the keys
  inherited from \<open>Object.prototype\<close> (\<open>constructor\<close>, \<open>toString\<close>, ...) with a function
  or an object, and \<open>totalEvaluation += value\<close> then builds a string such as
  \<open>0function Object() { [native code] }\<close>. \<open>NonNumber\<close> stands for any such value, the
  inherited function or object and every string built from it: it is truthy, its conversion
  to a number is \<open>NaN\<close> (so a comparison with it is false, \<open>Math.max\<close> and
  \<open>Math.min\<close> give \<open>NaN\<close>, and unary minus gives \<open>NaN\<close>), and \<open>+\<close> with it on either
  side concatenates, giving a string again. The text of the string is not modelled. The
  engine never compares two such values with each other: \<open>alpha\<close>, \<open>beta\<close> and
  \<open>bestValue\<close> are always numbers.
\<close>

datatype score = NegInfinity | Num int | Infinity

instantiation score :: linorder
begin

fun less_eq_score :: "score \<Rightarrow> score \<Rightarrow> bool" where
  "less_eq_score NegInfinity _ = True"
| "less_eq_score _ Infinity = True"
| "less_eq_score (Num a) (Num b) = (a \<le> b)"
| "less_eq_score _ _ = False"

definition less_score :: "score \<Rightarrow> score \<Rightarrow> bool" where
  "less_score x y = (x \<le> y \<and> \<not> y \<le> x)"

instance
proof
  fix x y z :: score
  show "(x < y) = (x \<le> y \<and> \<not> y \<le> x)" by (simp add: less_score_def)
  show "x \<le> x" by (cases x) simp_all
  show "x \<le> y \<Longrightarrow> y \<le> z \<Longrightarrow> x \<le> z" by (cases x; cases y; cases z) simp_all
  show "x \<le> y \<Longrightarrow> y \<le> x \<Longrightarrow> x = y" by (cases x; cases y) simp_all
  show "x \<le> y \<or> y \<le> x" by (cases x; cases y) auto
qed

end

datatype number = NaN | Val score | NonNumber

text \<open>
  The relational operators: every comparison with \<open>NaN\<close>, or with a value that converts
  to \<open>NaN\<close>, is false.
\<close>

fun js_le :: "number \<Rightarrow> number \<Rightarrow> bool" where
  "js_le (Val x) (Val y) = (x \<le> y)"
| "js_le _ _ = False"

fun js_lt :: "number \<Rightarrow> number \<Rightarrow> bool" where
  "js_lt (Val x) (Val y) = (x < y)"
| "js_lt _ _ = False"

fun js_gt :: "number \<Rightarrow> number \<Rightarrow> bool" where
  "js_gt (Val x) (Val y) = (y < x)"
| "js_gt _ _ = False"

text \<open>
  \<open>Math.max\<close> and \<open>Math.min\<close> return \<open>NaN\<close> as soon as one argument is, or converts
  to, \<open>NaN\<close>.
\<close>

fun Math_max :: "number \<Rightarrow> number \<Rightarrow> number" where
  "Math_max (Val x) (Val y) = Val (max x y)"
| "Math_max _ _ = NaN"

fun Math_min :: "number \<Rightarrow> number \<Rightarrow> number" where
  "Math_min (Val x) (Val y) = Val (min x y)"
| "Math_min _ _ = NaN"

text \<open>
  Unary minus and addition (\<open>Infinity + -Infinity\<close> is \<open>NaN\<close>; with a string, function
  or object on either side \<open>+\<close> is string concatenation).
\<close>

fun js_uminus :: "number \<Rightarrow> number" where
  "js_uminus NaN = NaN"
| "js_uminus NonNumber = NaN"
| "js_uminus (Val NegInfinity) = Val Infinity"
| "js_uminus (Val (Num a)) = Val (Num (- a))"
| "js_uminus (Val Infinity) = Val NegInfinity"

fun js_plus :: "number \<Rightarrow> number \<Rightarrow> number" where
  "js_plus (Val (Num a)) (Val (Num b)) = Val (Num (a + b))"
| "js_plus NonNumber _ = NonNumber"
| "js_plus _ NonNumber = NonNumber"
| "js_plus NaN _ = NaN"
| "js_plus _ NaN = NaN"
| "js_plus (Val Infinity) (Val NegInfinity) = NaN"
| "js_plus (Val NegInfinity) (Val Infinity) = NaN"
| "js_plus (Val Infinity) _ = Val Infinity"
| "js_plus _ (Val Infinity) = Val Infinity"
| "js_plus (Val NegInfinity) _ = Val NegInfinity"
| "js_plus _ (Val NegInfinity) = Val NegInfinity"


section \<open>The position collaborator (chess.js)\<close>

text \<open>
  The engine never implements chess rules; it drives a \<open>Chess\<close> object through
  \<open>board()\<close>, \<open>moves()\<close>, \<open>move(m)\<close>, \<open>undo()\<close>, \<open>isGameOver()\<close> and \<open>turn()\<close>.
  The object's mutable state is the type variable \<open>'g\<close>; the record holds the methods as
  functions of that state. \<open>move\<close> throws on an illegal move (\<open>None\<close>); the other
  methods are observers or total updates. Moves are SAN strings. A square of the grid is
  \<open>null\<close> or a piece with a \<open>type\<close> and a \<open>color\<close>; \<open>board()\<close> is an 8 by 8 array and is
  represented by its indexing function, which the engine reads at rows and columns 0..7.
\<close>

datatype Color = W | B

record piece =
  ptype :: string
  pcolor :: Color

type_synonym board = "nat \<Rightarrow> nat \<Rightarrow> piece option"

record 'g Chess =
  board :: "'g \<Rightarrow> board"
  moves :: "'g \<Rightarrow> string list"
  move :: "'g \<Rightarrow> string \<Rightarrow> 'g option"
  undo :: "'g \<Rightarrow> 'g"
  isGameOver :: "'g \<Rightarrow> bool"
  turn :: "'g \<Rightarrow> Color"


section \<open>Evaluator\<close>

text \<open>The table of the engine with a depth parameter (values 1, 3, 3, 5, 9, 0).\<close>

definition PIECE_VALUES :: "string \<rightharpoonup> int" where
  "PIECE_VALUES = [''p'' \<mapsto> 1, ''n'' \<mapsto> 3, ''b'' \<mapsto> 3, ''r'' \<mapsto> 5, ''q'' \<mapsto> 9, ''k'' \<mapsto> 0]"

text \<open>The table of the fixed-depth engine (values 10, 30, 30, 50, 90, 900).\<close>

definition PIECE_VALUES10 :: "string \<rightharpoonup> int" where
  "PIECE_VALUES10 = [''p'' \<mapsto> 10, ''n'' \<mapsto> 30, ''b'' \<mapsto> 30, ''r'' \<mapsto> 50, ''q'' \<mapsto> 90, ''k'' \<mapsto> 900]"

text \<open>
  The property names that every object literal inherits from \<open>Object.prototype\<close>
  (ECMAScript, with the legacy accessors of its Annex B): a key among them, though absent
  from the table, reads as a function (as an object for \<open>__proto__\<close>).
\<close>

definition objectPrototypeKeys :: "string list" where
  "objectPrototypeKeys =
     [''constructor'', ''hasOwnProperty'', ''isPrototypeOf'', ''propertyIsEnumerable'',
      ''toLocaleString'', ''toString'', ''valueOf'', ''__proto__'', ''__defineGetter__'',
      ''__defineSetter__'', ''__lookupGetter__'', ''__lookupSetter__'']"

text \<open>
  \<open>const value = PIECE_VALUES[piece.type]\<close>: an own key reads its number and an inherited
  key the inherited function or object. Any other key reads \<open>undefined\<close>, for which the
  model writes \<open>NaN\<close>: \<open>undefined\<close> is used only in \<open>-value\<close> and in
  \<open>totalEvaluation += value\<close>, where it behaves as \<open>NaN\<close> does.
\<close>

definition lookupValue :: "piece \<Rightarrow> number" where
  "lookupValue p =
     (case PIECE_VALUES (ptype p) of
        Some v \<Rightarrow> Val (Num v)
      | None \<Rightarrow> if ptype p \<in> set objectPrototypeKeys then NonNumber else NaN)"

text \<open>
  \<open>const value = PIECE_VALUES[piece.type] || 0\<close>: \<open>undefined\<close> and the falsy 0 read
  as 0; the function or object of an inherited key is truthy and stays.
\<close>

definition lookupValue10 :: "piece \<Rightarrow> number" where
  "lookupValue10 p =
     (case PIECE_VALUES10 (ptype p) of
        Some v \<Rightarrow> if v = 0 then Val (Num 0) else Val (Num v)
      | None \<Rightarrow> if ptype p \<in> set objectPrototypeKeys then NonNumber else Val (Num 0))"

text \<open>
  The body of the two nested loops, for one square:
  \<open>if (piece) totalEvaluation += piece.color === 'w' ? value : -value\<close>.
\<close>

definition addSquare :: "(piece \<Rightarrow> number) \<Rightarrow> piece option \<Rightarrow> number \<Rightarrow> number" where
  "addSquare lookup sq totalEvaluation =
     (case sq of
        None \<Rightarrow> totalEvaluation
      | Some p \<Rightarrow>
          (let v = lookup p
           in js_plus totalEvaluation (if pcolor p = W then v else js_uminus v)))"

definition evaluateWith :: "(piece \<Rightarrow> number) \<Rightarrow> board \<Rightarrow> number" where
  "evaluateWith lookup b =
     fold (\<lambda>row. fold (\<lambda>col. addSquare lookup (b row col)) [0..<8]) [0..<8] (Val (Num 0))"

text \<open>\<open>evaluateBoard\<close> of the engine with a depth parameter.\<close>

definition evaluateBoard :: "'g Chess \<Rightarrow> 'g \<Rightarrow> number" where
  "evaluateBoard game g = evaluateWith lookupValue (board game g)"

text \<open>\<open>evaluateBoard\<close> of the fixed-depth engine.\<close>

definition evaluateBoard10 :: "'g Chess \<Rightarrow> 'g \<Rightarrow> number" where
  "evaluateBoard10 game g = evaluateWith lookupValue10 (board game g)"

text \<open>
  What the specification says the evaluator computes: the sum over the 64 squares of the
  table value of the piece standing there, positive for White and negative for Black; a
  type missing from the table counts 0.
\<close>

definition signedValue :: "(string \<rightharpoonup> int) \<Rightarrow> piece option \<Rightarrow> int" where
  "signedValue tbl sq =
     (case sq of
        None \<Rightarrow> 0
      | Some p \<Rightarrow>
          (case tbl (ptype p) of
             None \<Rightarrow> 0
           | Some v \<Rightarrow> if pcolor p = W then v else - v))"

definition material :: "(string \<rightharpoonup> int) \<Rightarrow> board \<Rightarrow> int" where
  "material tbl b = (\<Sum>row\<leftarrow>[0..<8]. \<Sum>col\<leftarrow>[0..<8]. signedValue tbl (b row col))"

text \<open>A board is typed when every piece on it has one of the types of the table.\<close>

definition typedSquare :: "piece option \<Rightarrow> bool" where
  "typedSquare sq = (case sq of None \<Rightarrow> True | Some p \<Rightarrow> PIECE_VALUES (ptype p) \<noteq> None)"

definition typedBoard :: "board \<Rightarrow> bool" where
  "typedBoard b = list_all (\<lambda>row. list_all (\<lambda>col. typedSquare (b row col)) [0..<8]) [0..<8]"

text \<open>
  A board is plain when no piece on it has a type that names a property inherited from
  \<open>Object.prototype\<close>. Every typed board is plain.
\<close>

definition plainSquare :: "piece option \<Rightarrow> bool" where
  "plainSquare sq = (case sq of None \<Rightarrow> True | Some p \<Rightarrow> ptype p \<notin> set objectPrototypeKeys)"

definition plainBoard :: "board \<Rightarrow> bool" where
  "plainBoard b = list_all (\<lambda>row. list_all (\<lambda>col. plainSquare (b row col)) [0..<8]) [0..<8]"

section \<open>Search\<close>

text \<open>
  A call of the engine returns, or propagates the exception of an illegal \<open>move\<close>, or
  does not come back. The third case is real: \<open>minimax\<close> stops on \<open>depth === 0\<close> or
  on a finished game, so below depth 0 it goes on for as long as the collaborator offers
  moves. The model bounds the number of nested \<open>minimax\<close> calls by a fuel argument and
  answers \<open>OutOfFuel\<close> when the bound is reached.
\<close>

datatype 'a outcome = Return 'a | Throw | OutOfFuel

text \<open>
  \<open>minimax(game, depth, alpha, beta, isMaximizingPlayer)\<close>. Both engine files contain the
  same function; they differ in the \<open>evaluateBoard\<close> they call, which is the parameter
  \<open>ev\<close>. The position is mutated in place by \<open>game.move\<close> and \<open>game.undo\<close>, so the
  state is threaded through and returned with the score. The two \<open>for\<close> loops are
  \<open>maxLoop\<close> and \<open>minLoop\<close>: they carry the running extremum and the window, and
  \<open>break\<close> is the return without the remaining moves.
\<close>

function (sequential) minimax ::
    "nat \<Rightarrow> ('g Chess \<Rightarrow> 'g \<Rightarrow> number) \<Rightarrow> 'g Chess \<Rightarrow> 'g \<Rightarrow> int \<Rightarrow> number \<Rightarrow> number \<Rightarrow> bool
      \<Rightarrow> (number \<times> 'g) outcome"
  and maxLoop ::
    "nat \<Rightarrow> ('g Chess \<Rightarrow> 'g \<Rightarrow> number) \<Rightarrow> 'g Chess \<Rightarrow> string list \<Rightarrow> 'g \<Rightarrow> int
      \<Rightarrow> number \<Rightarrow> number \<Rightarrow> number \<Rightarrow> (number \<times> 'g) outcome"
  and minLoop ::
    "nat \<Rightarrow> ('g Chess \<Rightarrow> 'g \<Rightarrow> number) \<Rightarrow> 'g Chess \<Rightarrow> string list \<Rightarrow> 'g \<Rightarrow> int
      \<Rightarrow> number \<Rightarrow> number \<Rightarrow> number \<Rightarrow> (number \<times> 'g) outcome"
where
  "minimax 0 ev game g depth alpha beta isMaximizingPlayer = OutOfFuel"
| "minimax (Suc fuel) ev game g depth alpha beta isMaximizingPlayer =
     (if depth = 0 \<or> isGameOver game g then Return (ev game g, g)
      else
        (let ms = moves game g
         in if isMaximizingPlayer
            then maxLoop fuel ev game ms g depth (Val NegInfinity) alpha beta
            else minLoop fuel ev game ms g depth (Val Infinity) alpha beta))"
| "maxLoop fuel ev game [] g depth maxEval alpha beta = Return (maxEval, g)"
| "maxLoop fuel ev game (m # ms) g depth maxEval alpha beta =
     (case move game g m of
        None \<Rightarrow> Throw
      | Some g1 \<Rightarrow>
          (case minimax fuel ev game g1 (depth - 1) alpha beta False of
             Return (evalValue, g2) \<Rightarrow>
               (let g3 = undo game g2;
                    maxEval' = Math_max maxEval evalValue;
                    alpha' = Math_max alpha evalValue
                in if js_le beta alpha' then Return (maxEval', g3)
                   else maxLoop fuel ev game ms g3 depth maxEval' alpha' beta)
           | Throw \<Rightarrow> Throw
           | OutOfFuel \<Rightarrow> OutOfFuel))"
| "minLoop fuel ev game [] g depth minEval alpha beta = Return (minEval, g)"
| "minLoop fuel ev game (m # ms) g depth minEval alpha beta =
     (case move game g m of
        None \<Rightarrow> Throw
      | Some g1 \<Rightarrow>
          (case minimax fuel ev game g1 (depth - 1) alpha beta True of
             Return (evalValue, g2) \<Rightarrow>
               (let g3 = undo game g2;
                    minEval' = Math_min minEval evalValue;
                    beta' = Math_min beta evalValue
                in if js_le beta' alpha then Return (minEval', g3)
                   else minLoop fuel ev game ms g3 depth minEval' alpha beta')
           | Throw \<Rightarrow> Throw
           | OutOfFuel \<Rightarrow> OutOfFuel))"
  by pat_completeness auto

text \<open>
  A nested \<open>minimax\<close> call has one unit of fuel less; a loop calls \<open>minimax\<close> with its
  own fuel and itself with a shorter list.
\<close>

termination
  by (relation "inv_image (less_than <*lex*> less_than)
        (\<lambda>x. case x of
           Inl (fuel, ev, game, g, depth, alpha, beta, isMaximizingPlayer) \<Rightarrow> (fuel, 0)
         | Inr (Inl (fuel, ev, game, ms, g, depth, maxEval, alpha, beta)) \<Rightarrow>
             (fuel, Suc (length ms))
         | Inr (Inr (fuel, ev, game, ms, g, depth, minEval, alpha, beta)) \<Rightarrow>
             (fuel, Suc (length ms)))")
    auto


section \<open>Move selection\<close>

text \<open>
  \<open>xs[i]\<close> is \<open>undefined\<close> outside the array; the functions below return a move or a
  nullish value, so both \<open>null\<close> and \<open>undefined\<close> are \<open>None\<close>.
\<close>

definition nth_opt :: "'a list \<Rightarrow> nat \<Rightarrow> 'a option" where
  "nth_opt xs i = (if i < length xs then Some (xs ! i) else None)"

text \<open>
  \<open>getRandomMove\<close>. The parameter \<open>rnd\<close> stands for
  \<open>Math.floor(Math.random() * moves.length)\<close> as a function of the length.
\<close>

definition getRandomMove :: "(nat \<Rightarrow> nat) \<Rightarrow> 'g Chess \<Rightarrow> 'g \<Rightarrow> string option" where
  "getRandomMove rnd game g =
     (let ms = moves game g
      in if length ms = 0 then None else nth_opt ms (rnd (length ms)))"

text \<open>
  \<open>bestMove || moves[0]\<close>: \<open>null\<close> and the empty string are falsy.
\<close>

definition js_or :: "string option \<Rightarrow> string option \<Rightarrow> string option" where
  "js_or bestMove first =
     (case bestMove of
        None \<Rightarrow> first
      | Some m \<Rightarrow> if m = [] then first else Some m)"

text \<open>
  The loop of \<open>getBestMove\<close> in the engine with a depth parameter. \<open>game.turn()\<close> is read
  again after each \<open>move\<close> (for the side that minimax plays) and after each \<open>undo\<close> (for
  the direction of the comparison).
\<close>

fun bestLoop ::
    "nat \<Rightarrow> ('g Chess \<Rightarrow> 'g \<Rightarrow> number) \<Rightarrow> 'g Chess \<Rightarrow> string list \<Rightarrow> 'g \<Rightarrow> int
      \<Rightarrow> string option \<Rightarrow> number \<Rightarrow> (string option \<times> 'g) outcome"
where
  "bestLoop fuel ev game [] g depth bestMove bestValue = Return (bestMove, g)"
| "bestLoop fuel ev game (m # ms) g depth bestMove bestValue =
     (case move game g m of
        None \<Rightarrow> Throw
      | Some g1 \<Rightarrow>
          (case minimax fuel ev game g1 (depth - 1) (Val NegInfinity) (Val Infinity)
                  (turn game g1 = W) of
             Return (boardValue, g2) \<Rightarrow>
               (let g3 = undo game g2
                in if turn game g3 = W
                   then (if js_gt boardValue bestValue
                         then bestLoop fuel ev game ms g3 depth (Some m) boardValue
                         else bestLoop fuel ev game ms g3 depth bestMove bestValue)
                   else (if js_lt boardValue bestValue
                         then bestLoop fuel ev game ms g3 depth (Some m) boardValue
                         else bestLoop fuel ev game ms g3 depth bestMove bestValue))
           | Throw \<Rightarrow> Throw
           | OutOfFuel \<Rightarrow> OutOfFuel))"

text \<open>
  \<open>getBestMove(game, depth = 3)\<close> of the engine with a depth parameter. The parameter
  \<open>shuffle\<close> stands for \<open>moves.sort(() => Math.random() - 0.5)\<close>, which reorders the
  array returned by \<open>game.moves()\<close> in place.
\<close>

definition getBestMove ::
    "nat \<Rightarrow> (string list \<Rightarrow> string list) \<Rightarrow> 'g Chess \<Rightarrow> 'g \<Rightarrow> int
      \<Rightarrow> (string option \<times> 'g) outcome"
where
  "getBestMove fuel shuffle game g depth =
     (let ms = moves game g
      in if length ms = 0 then Return (None, g)
         else
           (let bestValue = (if turn game g = W then Val NegInfinity else Val Infinity);
                ms' = shuffle ms
            in case bestLoop fuel evaluateBoard game ms' g depth None bestValue of
                 Return (bestMove, g') \<Rightarrow> Return (js_or bestMove (nth_opt ms' 0), g')
               | Throw \<Rightarrow> Throw
               | OutOfFuel \<Rightarrow> OutOfFuel))"

text \<open>
  The loop of \<open>getBestMove\<close> in the fixed-depth engine: \<open>isMaximizing\<close> is computed once
  before the loop and \<open>DEPTH\<close> is the constant 3.
\<close>

fun bestLoop10 ::
    "nat \<Rightarrow> 'g Chess \<Rightarrow> string list \<Rightarrow> 'g \<Rightarrow> bool \<Rightarrow> string option \<Rightarrow> number
      \<Rightarrow> (string option \<times> 'g) outcome"
where
  "bestLoop10 fuel game [] g isMaximizing bestMove bestValue = Return (bestMove, g)"
| "bestLoop10 fuel game (m # ms) g isMaximizing bestMove bestValue =
     (case move game g m of
        None \<Rightarrow> Throw
      | Some g1 \<Rightarrow>
          (case minimax fuel evaluateBoard10 game g1 (3 - 1) (Val NegInfinity) (Val Infinity)
                  (\<not> isMaximizing) of
             Return (boardValue, g2) \<Rightarrow>
               (let g3 = undo game g2
                in if isMaximizing
                   then (if js_gt boardValue bestValue
                         then bestLoop10 fuel game ms g3 isMaximizing (Some m) boardValue
                         else bestLoop10 fuel game ms g3 isMaximizing bestMove bestValue)
                   else (if js_lt boardValue bestValue
                         then bestLoop10 fuel game ms g3 isMaximizing (Some m) boardValue
                         else bestLoop10 fuel game ms g3 isMaximizing bestMove bestValue))
           | Throw \<Rightarrow> Throw
           | OutOfFuel \<Rightarrow> OutOfFuel))"

definition getBestMove10 ::
    "nat \<Rightarrow> (string list \<Rightarrow> string list) \<Rightarrow> 'g Chess \<Rightarrow> 'g \<Rightarrow> (string option \<times> 'g) outcome"
where
  "getBestMove10 fuel shuffle game g =
     (let ms = moves game g
      in if length ms = 0 then Return (None, g)
         else
           (let bestValue = (if turn game g = W then Val NegInfinity else Val Infinity);
                isMaximizing = (turn game g = W);
                ms' = shuffle ms
            in case bestLoop10 fuel game ms' g isMaximizing None bestValue of
                 Return (bestMove, g') \<Rightarrow> Return (js_or bestMove (nth_opt ms' 0), g')
               | Throw \<Rightarrow> Throw
               | OutOfFuel \<Rightarrow> OutOfFuel))"


section \<open>The contract of the collaborator\<close>

text \<open>
  What the engine relies on: a move listed by \<open>moves()\<close> is accepted by \<open>move\<close>;
  \<open>undo\<close> after a \<open>move\<close> gives back the state before it; every piece on a board has
  one of the six piece symbols; a move is a non-empty SAN string.
\<close>

definition legalMovesApply :: "'g Chess \<Rightarrow> bool" where
  "legalMovesApply game = (\<forall>g. \<forall>m \<in> set (moves game g). move game g m \<noteq> None)"

definition undoRestores :: "'g Chess \<Rightarrow> bool" where
  "undoRestores game = (\<forall>g m g'. move game g m = Some g' \<longrightarrow> undo game g' = g)"

definition typedBoards :: "'g Chess \<Rightarrow> bool" where
  "typedBoards game = (\<forall>g. typedBoard (board game g))"

definition sanMoves :: "'g Chess \<Rightarrow> bool" where
  "sanMoves game = (\<forall>g. [] \<notin> set (moves game g))"


section \<open>Exhaustive minimax\<close>

text \<open>
  The reference of the equivalence property: the full-width minimax value of a position
  to a given number of plies, with no window and no cutoff. The children of a position
  are the positions its legal moves lead to; a maximizing node takes the maximum of its
  children's values (\<open>-Infinity\<close> if it has none), a minimizing node the minimum
  (\<open>Infinity\<close> if it has none).
\<close>

definition children :: "'g Chess \<Rightarrow> 'g \<Rightarrow> 'g list" where
  "children game g = List.map_filter (move game g) (moves game g)"

fun exhaustive ::
    "('g Chess \<Rightarrow> 'g \<Rightarrow> number) \<Rightarrow> 'g Chess \<Rightarrow> nat \<Rightarrow> 'g \<Rightarrow> bool \<Rightarrow> number"
where
  "exhaustive ev game 0 g isMaximizingPlayer = ev game g"
| "exhaustive ev game (Suc d) g isMaximizingPlayer =
     (if isGameOver game g then ev game g
      else if isMaximizingPlayer
      then foldr Math_max (map (\<lambda>c. exhaustive ev game d c False) (children game g))
             (Val NegInfinity)
      else foldr Math_min (map (\<lambda>c. exhaustive ev game d c True) (children game g))
             (Val Infinity))"


section \<open>Notions used in the proofs\<close>

text \<open>
  The relation between the exact value \<open>v\<close> of a node and the value \<open>r\<close> that the
  search returns for it under the window from \<open>a\<close> to \<open>b\<close>: above \<open>a\<close> the returned
  value is a lower bound, below \<open>b\<close> it is an upper bound, so inside the window it is
  exact.
\<close>

definition failSoft :: "score \<Rightarrow> score \<Rightarrow> score \<Rightarrow> score \<Rightarrow> bool" where
  "failSoft a b v r = ((a < r \<longrightarrow> r \<le> v) \<and> (r < b \<longrightarrow> v \<le> r))"

text \<open>
  The state of the loop of \<open>getBestMove\<close>: either no move has been kept and the best
  value is still the sentinel, or the kept move is a legal move whose position evaluates to
  the best value.
\<close>

definition bestSoFar ::
    "('g Chess \<Rightarrow> 'g \<Rightarrow> number) \<Rightarrow> 'g Chess \<Rightarrow> 'g \<Rightarrow> string option \<Rightarrow> score \<Rightarrow> bool" where
  "bestSoFar ev game g bestMove bestValue =
     (case bestMove of
        None \<Rightarrow> bestValue = NegInfinity
      | Some m \<Rightarrow>
          m \<in> set (moves game g)
          \<and> (case move game g m of None \<Rightarrow> False | Some g1 \<Rightarrow> ev game g1 = Val bestValue))"

section \<open>Boards used to state the properties\<close>

text \<open>Every piece changes side; type and square stay.\<close>

definition colorSwap :: "board \<Rightarrow> board" where
  "colorSwap b =
     (\<lambda>row col. map_option (\<lambda>p. p\<lparr>pcolor := (if pcolor p = W then B else W)\<rparr>) (b row col))"

text \<open>The board with no piece, and the board with the two kings alone.\<close>

definition emptyBoard :: board where
  "emptyBoard = (\<lambda>row col. None)"

definition bareKings :: "nat \<times> nat \<Rightarrow> nat \<times> nat \<Rightarrow> board" where
  "bareKings wk bk =
     (\<lambda>row col. if (row, col) = wk then Some \<lparr>ptype = ''k'', pcolor = W\<rparr>
                else if (row, col) = bk then Some \<lparr>ptype = ''k'', pcolor = B\<rparr>
                else None)"

text \<open>White kings minus black kings on the 64 squares.\<close>

definition kingBalance :: "board \<Rightarrow> int" where
  "kingBalance b = material [''k'' \<mapsto> 1] b"


section \<open>Example positions\<close>

text \<open>
  A finished game showing a given board: no legal move, every move throws.
\<close>

definition fixedBoard :: "board \<Rightarrow> unit Chess" where
  "fixedBoard b =
     \<lparr>board = (\<lambda>g. b), moves = (\<lambda>g. []), move = (\<lambda>g m. None), undo = (\<lambda>g. g),
      isGameOver = (\<lambda>g. True), turn = (\<lambda>g. W)\<rparr>"

text \<open>A lone white king on e1, and the same square holding a piece of unknown type.\<close>

definition loneKing :: board where
  "loneKing = (\<lambda>row col. if row = 7 \<and> col = 4 then Some \<lparr>ptype = ''k'', pcolor = W\<rparr> else None)"

definition strangePiece :: board where
  "strangePiece = (\<lambda>row col. if row = 7 \<and> col = 4 then Some \<lparr>ptype = ''x'', pcolor = W\<rparr> else None)"

text \<open>
  A lone piece on e1 whose type is \<open>constructor\<close>, a name that every object literal
  inherits.
\<close>

definition inheritedPiece :: "Color \<Rightarrow> board" where
  "inheritedPiece c =
     (\<lambda>row col. if row = 7 \<and> col = 4 then Some \<lparr>ptype = ''constructor'', pcolor = c\<rparr> else None)"

text \<open>King and queen against king.\<close>

definition kqk :: board where
  "kqk = (\<lambda>row col.
     if row = 7 \<and> col = 4 then Some \<lparr>ptype = ''k'', pcolor = W\<rparr>
     else if row = 7 \<and> col = 3 then Some \<lparr>ptype = ''q'', pcolor = W\<rparr>
     else if row = 0 \<and> col = 4 then Some \<lparr>ptype = ''k'', pcolor = B\<rparr>
     else None)"

text \<open>
  A three-ply game for examples. The state is the list of moves played; each side may
  play \<open>a\<close>, which adds a white pawn, or \<open>b\<close>, which adds a black pawn, until three
  moves have been played.
\<close>

definition pawnGame :: "string list Chess" where
  "pawnGame =
     \<lparr>board = (\<lambda>g row col.
         if row = 6 \<and> col < count_list g ''a'' then Some \<lparr>ptype = ''p'', pcolor = W\<rparr>
         else if row = 1 \<and> col < count_list g ''b'' then Some \<lparr>ptype = ''p'', pcolor = B\<rparr>
         else None),
      moves = (\<lambda>g. if length g < 3 then [''a'', ''b''] else []),
      move = (\<lambda>g m. if length g < 3 \<and> (m = ''a'' \<or> m = ''b'') then Some (g @ [m]) else None),
      undo = butlast,
      isGameOver = (\<lambda>g. 3 \<le> length g),
      turn = (\<lambda>g. if even (length g) then W else B)\<rparr>"

section \<open>The evaluator computes the material balance\<close>

lemma typedSquare_plain: "typedSquare sq \<Longrightarrow> plainSquare sq"
  by (cases sq)
    (auto simp add: typedSquare_def plainSquare_def PIECE_VALUES_def objectPrototypeKeys_def
      split: if_splits)

lemma typedBoard_plain: "typedBoard b \<Longrightarrow> plainBoard b"
  by (simp add: typedBoard_def plainBoard_def list_all_iff typedSquare_plain)

lemma addSquare10_Num:
  "plainSquare sq \<Longrightarrow>
     addSquare lookupValue10 sq (Val (Num a)) = Val (Num (a + signedValue PIECE_VALUES10 sq))"
  by (auto simp add: addSquare_def lookupValue10_def signedValue_def plainSquare_def Let_def
      split: option.splits)

lemma addSquare_Num:
  "typedSquare sq \<Longrightarrow>
     addSquare lookupValue sq (Val (Num a)) = Val (Num (a + signedValue PIECE_VALUES sq))"
  by (auto simp add: addSquare_def lookupValue_def signedValue_def typedSquare_def Let_def
      split: option.splits)

lemma fold_cols10:
  "list_all (\<lambda>col. plainSquare (f col)) cs \<Longrightarrow>
     fold (\<lambda>col. addSquare lookupValue10 (f col)) cs (Val (Num a)) =
       Val (Num (a + (\<Sum>col\<leftarrow>cs. signedValue PIECE_VALUES10 (f col))))"
  by (induction cs arbitrary: a) (simp_all add: addSquare10_Num add.assoc)

lemma fold_rows10:
  "list_all (\<lambda>row. list_all (\<lambda>col. plainSquare (b row col)) cs) rs \<Longrightarrow>
     fold (\<lambda>row. fold (\<lambda>col. addSquare lookupValue10 (b row col)) cs) rs (Val (Num a)) =
       Val (Num (a + (\<Sum>row\<leftarrow>rs. \<Sum>col\<leftarrow>cs. signedValue PIECE_VALUES10 (b row col))))"
  by (induction rs arbitrary: a) (simp_all add: fold_cols10 add.assoc)

lemma fold_cols:
  "list_all (\<lambda>col. typedSquare (f col)) cs \<Longrightarrow>
     fold (\<lambda>col. addSquare lookupValue (f col)) cs (Val (Num a)) =
       Val (Num (a + (\<Sum>col\<leftarrow>cs. signedValue PIECE_VALUES (f col))))"
  by (induction cs arbitrary: a) (simp_all add: addSquare_Num add.assoc)

lemma fold_rows:
  "list_all (\<lambda>row. list_all (\<lambda>col. typedSquare (b row col)) cs) rs \<Longrightarrow>
     fold (\<lambda>row. fold (\<lambda>col. addSquare lookupValue (b row col)) cs) rs (Val (Num a)) =
       Val (Num (a + (\<Sum>row\<leftarrow>rs. \<Sum>col\<leftarrow>cs. signedValue PIECE_VALUES (b row col))))"
  by (induction rs arbitrary: a) (simp_all add: fold_cols add.assoc)

lemma evaluateWith_lookupValue:
  "typedBoard b \<Longrightarrow> evaluateWith lookupValue b = Val (Num (material PIECE_VALUES b))"
  unfolding evaluateWith_def typedBoard_def material_def by (simp add: fold_rows)

lemma evaluateWith_lookupValue10:
  "plainBoard b \<Longrightarrow> evaluateWith lookupValue10 b = Val (Num (material PIECE_VALUES10 b))"
  unfolding evaluateWith_def plainBoard_def material_def by (simp add: fold_rows10)

lemma evaluateBoard_typed:
  "typedBoard (board game g) \<Longrightarrow>
     evaluateBoard game g = Val (Num (material PIECE_VALUES (board game g)))"
  by (simp add: evaluateBoard_def evaluateWith_lookupValue)

lemma evaluateBoard10_typed:
  "typedBoard (board game g) \<Longrightarrow>
     evaluateBoard10 game g = Val (Num (material PIECE_VALUES10 (board game g)))"
  by (simp add: evaluateBoard10_def evaluateWith_lookupValue10 typedBoard_plain)

lemma signedValue_colorSwap:
  "signedValue tbl (colorSwap b row col) = - signedValue tbl (b row col)"
  by (cases "b row col") (auto simp add: signedValue_def colorSwap_def split: option.splits)

lemma material_colorSwap: "material tbl (colorSwap b) = - material tbl b"
  by (simp add: material_def signedValue_colorSwap uminus_sum_list_map o_def)

lemma typedSquare_colorSwap: "typedSquare (colorSwap b row col) = typedSquare (b row col)"
  by (cases "b row col") (simp_all add: typedSquare_def colorSwap_def)

lemma typedBoard_colorSwap: "typedBoard (colorSwap b) = typedBoard b"
  by (simp add: typedBoard_def typedSquare_colorSwap)

lemma material_emptyBoard: "material tbl emptyBoard = 0"
  by (simp add: material_def emptyBoard_def signedValue_def)

lemma typedBoard_emptyBoard: "typedBoard emptyBoard"
  by (simp add: typedBoard_def emptyBoard_def typedSquare_def list_all_iff)

lemma typedBoard_bareKings: "typedBoard (bareKings wk bk)"
  by (simp add: typedBoard_def bareKings_def typedSquare_def list_all_iff PIECE_VALUES_def)

lemma sum_list_upt_delta:
  "(\<Sum>i\<leftarrow>[0..<n]. if i = k then (x::int) else 0) = (if k < n then x else 0)"
  by (induction n) auto

lemma material_single:
  "(\<Sum>row\<leftarrow>[0..<8]. \<Sum>col\<leftarrow>[0..<8]. if row = r \<and> col = c then (x::int) else 0) =
     (if r < 8 \<and> c < 8 then x else 0)"
proof -
  have inner: "\<And>row. (\<Sum>col\<leftarrow>[0..<8]. if row = r \<and> col = c then x else 0) =
      (if row = r then (if c < 8 then x else 0) else 0)"
  proof -
    fix row
    show "(\<Sum>col\<leftarrow>[0..<8]. if row = r \<and> col = c then x else 0) =
      (if row = r then (if c < 8 then x else 0) else 0)"
      using sum_list_upt_delta [of c x 8] by (cases "row = r") simp_all
  qed
  show ?thesis
    unfolding inner using sum_list_upt_delta [of r "if c < 8 then x else 0" 8] by simp
qed

lemma material_bareKings:
  assumes "wk \<noteq> bk" "fst wk < 8" "snd wk < 8" "fst bk < 8" "snd bk < 8"
    and "tbl ''k'' = Some v"
  shows "material tbl (bareKings wk bk) = 0"
proof -
  have sq: "\<And>row col. signedValue tbl (bareKings wk bk row col) =
      (if row = fst wk \<and> col = snd wk then v else 0) +
      (if row = fst bk \<and> col = snd bk then - v else 0)"
    using assms(1,6) by (cases wk; cases bk) (auto simp add: signedValue_def bareKings_def)
  have "material tbl (bareKings wk bk) =
      (\<Sum>row\<leftarrow>[0..<8]. \<Sum>col\<leftarrow>[0..<8]. if row = fst wk \<and> col = snd wk then v else 0) +
      (\<Sum>row\<leftarrow>[0..<8]. \<Sum>col\<leftarrow>[0..<8]. if row = fst bk \<and> col = snd bk then - v else 0)"
    unfolding material_def sq by (simp only: sum_list_addf)
  also have "\<dots> = 0"
    using assms(2-5) by (simp only: material_single) simp
  finally show ?thesis .
qed

lemma signedValue_scale:
  "signedValue PIECE_VALUES10 sq =
     10 * signedValue PIECE_VALUES sq + 900 * signedValue [''k'' \<mapsto> 1] sq"
  by (auto simp add: signedValue_def PIECE_VALUES_def PIECE_VALUES10_def split: option.splits)

lemma material_scale:
  "material PIECE_VALUES10 b = 10 * material PIECE_VALUES b + 900 * kingBalance b"
  unfolding material_def kingBalance_def signedValue_scale
  by (simp only: sum_list_addf sum_list_const_mult)

lemma board_fixedBoard: "board (fixedBoard b) g = b"
  by (simp add: fixedBoard_def)

lemma typedBoard_kqk: "typedBoard kqk"
  by code_simp

lemma kingBalance_kqk: "kingBalance kqk = 0"
  by code_simp

lemma material_kqk: "material PIECE_VALUES kqk = 9"
  by code_simp

lemma material10_kqk: "material PIECE_VALUES10 kqk = 90"
  by code_simp

section \<open>Properties of the evaluator\<close>

text \<open>
  C5. On every board whose piece types are in the table (the six piece symbols of
  chess.js) \<open>evaluateBoard\<close>, in both engines, returns the sum, over the 64 squares, of the
  table value of the piece on the square, positive for White and negative for Black. The
  result is a function of \<open>board()\<close> alone, so it is the same whichever side is to move,
  and nothing of the position is written. It is 0 on the empty board and 0 when only the
  two kings are left.
\<close>

theorem evaluateBoard_material:
  "(typedBoard (board game g) \<longrightarrow>
      evaluateBoard game g = Val (Num (material PIECE_VALUES (board game g)))
      \<and> evaluateBoard10 game g = Val (Num (material PIECE_VALUES10 (board game g))))
   \<and> (board game g = emptyBoard \<longrightarrow>
        evaluateBoard game g = Val (Num 0) \<and> evaluateBoard10 game g = Val (Num 0))
   \<and> (board game g = bareKings wk bk \<and> wk \<noteq> bk \<and> fst wk < 8 \<and> snd wk < 8
        \<and> fst bk < 8 \<and> snd bk < 8 \<longrightarrow>
        evaluateBoard game g = Val (Num 0) \<and> evaluateBoard10 game g = Val (Num 0))
   \<and> evaluateBoard (game\<lparr>turn := t\<rparr>) g = evaluateBoard game g
   \<and> evaluateBoard10 (game\<lparr>turn := t\<rparr>) g = evaluateBoard10 game g"
proof -
  have turns: "evaluateBoard (game\<lparr>turn := t\<rparr>) g = evaluateBoard game g
      \<and> evaluateBoard10 (game\<lparr>turn := t\<rparr>) g = evaluateBoard10 game g"
    by (simp add: evaluateBoard_def evaluateBoard10_def)
  have typed: "typedBoard (board game g) \<longrightarrow>
      evaluateBoard game g = Val (Num (material PIECE_VALUES (board game g)))
      \<and> evaluateBoard10 game g = Val (Num (material PIECE_VALUES10 (board game g)))"
    by (simp add: evaluateBoard_typed evaluateBoard10_typed)
  have empty: "board game g = emptyBoard \<longrightarrow>
      evaluateBoard game g = Val (Num 0) \<and> evaluateBoard10 game g = Val (Num 0)"
    by (simp add: evaluateBoard_typed evaluateBoard10_typed material_emptyBoard
        typedBoard_emptyBoard)
  have kings: "board game g = bareKings wk bk \<and> wk \<noteq> bk \<and> fst wk < 8 \<and> snd wk < 8
        \<and> fst bk < 8 \<and> snd bk < 8 \<longrightarrow>
        evaluateBoard game g = Val (Num 0) \<and> evaluateBoard10 game g = Val (Num 0)"
  proof
    assume h: "board game g = bareKings wk bk \<and> wk \<noteq> bk \<and> fst wk < 8 \<and> snd wk < 8
        \<and> fst bk < 8 \<and> snd bk < 8"
    have m: "material PIECE_VALUES (bareKings wk bk) = 0"
      using h by (intro material_bareKings [where v = 0]) (simp_all add: PIECE_VALUES_def)
    have m10: "material PIECE_VALUES10 (bareKings wk bk) = 0"
      using h by (intro material_bareKings [where v = 900]) (simp_all add: PIECE_VALUES10_def)
    show "evaluateBoard game g = Val (Num 0) \<and> evaluateBoard10 game g = Val (Num 0)"
      using h m m10
      by (simp add: evaluateBoard_typed evaluateBoard10_typed typedBoard_bareKings)
  qed
  from typed empty kings turns show ?thesis by blast
qed

theorem evaluateBoard_material_witness:
  "typedBoard (board (fixedBoard kqk) ())
   \<and> evaluateBoard (fixedBoard kqk) () = Val (Num 9)
   \<and> evaluateBoard10 (fixedBoard kqk) () = Val (Num 90)
   \<and> evaluateBoard (fixedBoard (bareKings (7, 4) (0, 4))) () = Val (Num 0)
   \<and> evaluateBoard10 (fixedBoard (bareKings (7, 4) (0, 4))) () = Val (Num 0)
   \<and> evaluateBoard (fixedBoard emptyBoard) () = Val (Num 0)
   \<and> evaluateBoard10 (fixedBoard emptyBoard) () = Val (Num 0)"
proof -
  let ?K = "fixedBoard (bareKings (7, 4) (0, 4))"
  have typed: "typedBoard (board (fixedBoard kqk) ())"
    by (simp add: board_fixedBoard typedBoard_kqk)
  have kings: "board ?K () = bareKings (7, 4) (0, 4) \<and> ((7, 4) :: nat \<times> nat) \<noteq> (0, 4)
      \<and> fst ((7, 4) :: nat \<times> nat) < 8 \<and> snd ((7, 4) :: nat \<times> nat) < 8
      \<and> fst ((0, 4) :: nat \<times> nat) < 8 \<and> snd ((0, 4) :: nat \<times> nat) < 8"
    by (simp add: board_fixedBoard)
  have empty: "board (fixedBoard emptyBoard) () = emptyBoard"
    by (simp add: board_fixedBoard)
  note sum = evaluateBoard_material [of "fixedBoard kqk" "()", THEN conjunct1, THEN mp, OF typed]
  from sum have "evaluateBoard (fixedBoard kqk) () = Val (Num 9)"
    by (simp add: board_fixedBoard material_kqk)
  moreover from sum have "evaluateBoard10 (fixedBoard kqk) () = Val (Num 90)"
    by (simp add: board_fixedBoard material10_kqk)
  moreover from kings evaluateBoard_material [of ?K "()" "(7, 4)" "(0, 4)"]
  have "evaluateBoard ?K () = Val (Num 0) \<and> evaluateBoard10 ?K () = Val (Num 0)"
    by blast
  moreover from empty evaluateBoard_material [of "fixedBoard emptyBoard" "()"]
  have "evaluateBoard (fixedBoard emptyBoard) () = Val (Num 0)
      \<and> evaluateBoard10 (fixedBoard emptyBoard) () = Val (Num 0)"
    by blast
  ultimately show ?thesis using typed by blast
qed

text \<open>
  C7. On every board whose piece types are in the table, swapping the side of every piece
  negates the score, in both engines.
\<close>

theorem evaluateBoard_colorSwap:
  assumes "typedBoard (board game g)"
  shows "evaluateBoard (game\<lparr>board := (\<lambda>g. colorSwap (board game g))\<rparr>) g
           = js_uminus (evaluateBoard game g)
         \<and> evaluateBoard10 (game\<lparr>board := (\<lambda>g. colorSwap (board game g))\<rparr>) g
           = js_uminus (evaluateBoard10 game g)"
proof -
  let ?swapped = "game\<lparr>board := (\<lambda>g. colorSwap (board game g))\<rparr>"
  have typed: "typedBoard (board ?swapped g)"
    using assms by (simp add: typedBoard_colorSwap)
  have "evaluateBoard ?swapped g = Val (Num (- material PIECE_VALUES (board game g)))"
    using evaluateBoard_typed [OF typed] by (simp add: material_colorSwap)
  moreover have "evaluateBoard10 ?swapped g = Val (Num (- material PIECE_VALUES10 (board game g)))"
    using evaluateBoard10_typed [OF typed] by (simp add: material_colorSwap)
  ultimately show ?thesis
    using evaluateBoard_typed [OF assms] evaluateBoard10_typed [OF assms] by simp
qed

theorem evaluateBoard_colorSwap_witness:
  "typedBoard (board (fixedBoard kqk) ())
   \<and> evaluateBoard (fixedBoard kqk) () = Val (Num 9)
   \<and> evaluateBoard ((fixedBoard kqk)\<lparr>board := (\<lambda>g. colorSwap (board (fixedBoard kqk) g))\<rparr>) ()
       = Val (Num (- 9))
   \<and> evaluateBoard10 (fixedBoard kqk) () = Val (Num 90)
   \<and> evaluateBoard10 ((fixedBoard kqk)\<lparr>board := (\<lambda>g. colorSwap (board (fixedBoard kqk) g))\<rparr>) ()
       = Val (Num (- 90))"
proof -
  have typed: "typedBoard (board (fixedBoard kqk) ())"
    by (simp add: board_fixedBoard typedBoard_kqk)
  have ev: "evaluateBoard (fixedBoard kqk) () = Val (Num 9)"
    using evaluateBoard_typed [OF typed] by (simp add: board_fixedBoard material_kqk)
  have ev10: "evaluateBoard10 (fixedBoard kqk) () = Val (Num 90)"
    using evaluateBoard10_typed [OF typed] by (simp add: board_fixedBoard material10_kqk)
  note swap = evaluateBoard_colorSwap [OF typed]
  from swap [THEN conjunct1]
  have s: "evaluateBoard ((fixedBoard kqk)\<lparr>board := (\<lambda>g. colorSwap (board (fixedBoard kqk) g))\<rparr>) ()
      = Val (Num (- 9))"
    by (simp only: ev js_uminus.simps)
  from swap [THEN conjunct2]
  have s10: "evaluateBoard10 ((fixedBoard kqk)\<lparr>board := (\<lambda>g. colorSwap (board (fixedBoard kqk) g))\<rparr>) ()
      = Val (Num (- 90))"
    by (simp only: ev10 js_uminus.simps)
  from typed ev s ev10 s10 show ?thesis by (intro conjI)
qed

text \<open>
  C8, as stated, fails: the two tables are not a constant multiple of one another. The pawn
  is scaled by 10, but the king is worth 0 in one table and 900 in the other; on the board
  with a lone white king the evaluators return 0 and 900, and no factor turns 0 into 900.
\<close>

theorem tables_not_scaled_counterexample:
  "PIECE_VALUES ''p'' = Some 1 \<and> PIECE_VALUES10 ''p'' = Some 10
   \<and> PIECE_VALUES ''k'' = Some 0 \<and> PIECE_VALUES10 ''k'' = Some 900
   \<and> evaluateBoard (fixedBoard loneKing) () = Val (Num 0)
   \<and> evaluateBoard10 (fixedBoard loneKing) () = Val (Num 900)"
  by (simp add: PIECE_VALUES_def PIECE_VALUES10_def evaluateBoard_def evaluateBoard10_def
      evaluateWith_def addSquare_def lookupValue_def lookupValue10_def fixedBoard_def
      loneKing_def upt_rec [of _ "numeral _"] upt_rec [of 0 "numeral _"])

text \<open>
  C8, amended. The second table is ten times the first on every piece type but the king,
  and on every typed board the second evaluator returns ten times the first plus 900 for
  each white king and minus 900 for each black king; so the factor is exactly 10 on every
  board with as many white as black kings.
\<close>

theorem evaluateBoard10_scale:
  "(\<forall>t v. t \<noteq> ''k'' \<and> PIECE_VALUES t = Some v \<longrightarrow> PIECE_VALUES10 t = Some (10 * v))
   \<and> (typedBoard (board game g) \<longrightarrow>
        (\<exists>x. evaluateBoard game g = Val (Num x)
           \<and> evaluateBoard10 game g = Val (Num (10 * x + 900 * kingBalance (board game g)))))"
proof -
  have tables: "\<forall>t v. t \<noteq> ''k'' \<and> PIECE_VALUES t = Some v \<longrightarrow> PIECE_VALUES10 t = Some (10 * v)"
    by (auto simp add: PIECE_VALUES_def PIECE_VALUES10_def split: if_splits)
  have boards: "typedBoard (board game g) \<longrightarrow>
        (\<exists>x. evaluateBoard game g = Val (Num x)
           \<and> evaluateBoard10 game g = Val (Num (10 * x + 900 * kingBalance (board game g))))"
    by (simp add: evaluateBoard_typed evaluateBoard10_typed material_scale)
  from tables boards show ?thesis by blast
qed

theorem evaluateBoard10_scale_witness:
  "''q'' \<noteq> ''k'' \<and> PIECE_VALUES ''q'' = Some 9 \<and> PIECE_VALUES10 ''q'' = Some (10 * 9)
   \<and> typedBoard (board (fixedBoard kqk) ())
   \<and> evaluateBoard (fixedBoard kqk) () = Val (Num 9)
   \<and> evaluateBoard10 (fixedBoard kqk) () = Val (Num 90)"
proof -
  have q: "''q'' \<noteq> ''k'' \<and> PIECE_VALUES ''q'' = Some 9"
    by (simp add: PIECE_VALUES_def)
  have typed: "typedBoard (board (fixedBoard kqk) ())"
    by (simp add: board_fixedBoard typedBoard_kqk)
  have ev: "evaluateBoard (fixedBoard kqk) () = Val (Num 9)"
    using evaluateBoard_typed [OF typed] by (simp add: board_fixedBoard material_kqk)
  note scale = evaluateBoard10_scale [of "fixedBoard kqk" "()"]
  from scale
  have "''q'' \<noteq> ''k'' \<and> PIECE_VALUES ''q'' = Some 9 \<longrightarrow> PIECE_VALUES10 ''q'' = Some (10 * 9)"
    by (elim conjE allE)
  with q have tbl: "PIECE_VALUES10 ''q'' = Some (10 * 9)" by (rule rev_mp)
  from scale typed obtain x where x: "evaluateBoard (fixedBoard kqk) () = Val (Num x)"
    "evaluateBoard10 (fixedBoard kqk) () = Val (Num (10 * x + 900 * kingBalance (board (fixedBoard kqk) ())))"
    by (elim conjE impE exE)
  from x(1) ev have "x = 9" by simp
  with x(2) have ten: "evaluateBoard10 (fixedBoard kqk) () = Val (Num 90)"
    by (simp add: board_fixedBoard kingBalance_kqk)
  from q tbl typed ev ten show ?thesis by (intro conjI) (simp_all only: simp_thms)
qed

text \<open>
  C9, as stated, fails in both engines. The engine with a depth parameter has no fallback
  for a missing key, so a piece of type \<open>x\<close> turns the result into \<open>NaN\<close>. The
  fixed-depth engine falls back to 0 only when the lookup is falsy: for a type that is
  absent from the table but names a property every object inherits, such as
  \<open>constructor\<close>, the lookup is a function, and the result is \<open>NaN\<close> for a black piece
  and a string for a white one.
\<close>

theorem missing_type_counterexample:
  "PIECE_VALUES ''x'' = None
   \<and> evaluateBoard (fixedBoard strangePiece) () = NaN
   \<and> PIECE_VALUES10 ''constructor'' = None
   \<and> evaluateBoard10 (fixedBoard (inheritedPiece B)) () = NaN
   \<and> evaluateBoard10 (fixedBoard (inheritedPiece W)) () = NonNumber"
  by code_simp

text \<open>
  C9, amended. In the fixed-depth engine (\<open>|| 0\<close>) a piece whose type is absent from the
  table and does not name a property inherited from \<open>Object.prototype\<close> contributes 0: it
  leaves a numeric running total as it was, and on every board free of inherited names the
  result is the finite material sum in which such a piece counts 0. In the engine with a
  depth parameter the result is a finite number on every board whose piece types are all
  in the table.
\<close>

theorem missing_type_contributes_zero:
  "(PIECE_VALUES10 (ptype p) = None \<and> ptype p \<notin> set objectPrototypeKeys \<longrightarrow>
      addSquare lookupValue10 (Some p) (Val (Num n)) = Val (Num n))
   \<and> (plainBoard (board game g) \<longrightarrow>
        evaluateBoard10 game g = Val (Num (material PIECE_VALUES10 (board game g))))
   \<and> (typedBoard (board game g) \<longrightarrow> (\<exists>x. evaluateBoard game g = Val (Num x)))"
proof -
  have square: "PIECE_VALUES10 (ptype p) = None \<and> ptype p \<notin> set objectPrototypeKeys \<longrightarrow>
      addSquare lookupValue10 (Some p) (Val (Num n)) = Val (Num n)"
    by (simp add: addSquare_def lookupValue10_def Let_def)
  have ten: "plainBoard (board game g) \<longrightarrow>
      evaluateBoard10 game g = Val (Num (material PIECE_VALUES10 (board game g)))"
    by (simp add: evaluateBoard10_def evaluateWith_lookupValue10)
  have typed: "typedBoard (board game g) \<longrightarrow> (\<exists>x. evaluateBoard game g = Val (Num x))"
    by (simp add: evaluateBoard_typed)
  from square ten typed show ?thesis by (intro conjI)
qed

theorem missing_type_contributes_zero_witness:
  "PIECE_VALUES10 (ptype \<lparr>ptype = ''x'', pcolor = B\<rparr>) = None
   \<and> ptype \<lparr>ptype = ''x'', pcolor = B\<rparr> \<notin> set objectPrototypeKeys
   \<and> addSquare lookupValue10 (Some \<lparr>ptype = ''x'', pcolor = B\<rparr>) (Val (Num 5)) = Val (Num 5)
   \<and> plainBoard (board (fixedBoard strangePiece) ())
   \<and> evaluateBoard10 (fixedBoard strangePiece) () = Val (Num 0)
   \<and> typedBoard (board (fixedBoard kqk) ())
   \<and> (\<exists>x. evaluateBoard (fixedBoard kqk) () = Val (Num x))"
proof -
  have missing: "PIECE_VALUES10 (ptype \<lparr>ptype = ''x'', pcolor = B\<rparr>) = None"
    by (simp add: PIECE_VALUES10_def)
  have own: "ptype \<lparr>ptype = ''x'', pcolor = B\<rparr> \<notin> set objectPrototypeKeys"
    by (simp add: objectPrototypeKeys_def)
  have plain: "plainBoard (board (fixedBoard strangePiece) ())"
    unfolding board_fixedBoard by code_simp
  have typed: "typedBoard (board (fixedBoard kqk) ())"
    by (simp add: board_fixedBoard typedBoard_kqk)
  have m: "material PIECE_VALUES10 strangePiece = 0"
    by code_simp
  note piece = missing_type_contributes_zero [of "\<lparr>ptype = ''x'', pcolor = B\<rparr>" 5
      "fixedBoard kqk" "()"]
  note strange = missing_type_contributes_zero [of "\<lparr>ptype = ''x'', pcolor = B\<rparr>" 5
      "fixedBoard strangePiece" "()"]
  from piece [THEN conjunct1, THEN mp, OF conjI [OF missing own]]
  have a: "addSquare lookupValue10 (Some \<lparr>ptype = ''x'', pcolor = B\<rparr>) (Val (Num 5))
      = Val (Num 5)" .
  from piece [THEN conjunct2, THEN conjunct2, THEN mp, OF typed]
  have b: "\<exists>x. evaluateBoard (fixedBoard kqk) () = Val (Num x)" .
  from strange [THEN conjunct2, THEN conjunct1, THEN mp, OF plain]
  have c: "evaluateBoard10 (fixedBoard strangePiece) () = Val (Num 0)"
    by (simp add: board_fixedBoard m)
  from missing own a plain c typed b show ?thesis by (intro conjI)
qed


section \<open>The search leaves the position as it found it\<close>

lemma undoRestoresD: "undoRestores game \<Longrightarrow> move game g m = Some g' \<Longrightarrow> undo game g' = g"
  by (simp add: undoRestores_def)

lemma legalMovesApplyD:
  "legalMovesApply game \<Longrightarrow> m \<in> set (moves game g) \<Longrightarrow> \<exists>g'. move game g m = Some g'"
  by (auto simp add: legalMovesApply_def)

lemma minimax_frame:
  assumes "undoRestores game"
  shows "minimax fuel ev game g depth alpha beta isMax = Return (v, g') \<Longrightarrow> g' = g"
    and "maxLoop fuel ev game ms g depth maxEval alpha beta = Return (v, g') \<Longrightarrow> g' = g"
    and "minLoop fuel ev game ms g depth minEval alpha beta = Return (v, g') \<Longrightarrow> g' = g"
  using assms
proof (induction fuel ev game g depth alpha beta isMax
    and fuel ev game ms g depth maxEval alpha beta
    and fuel ev game ms g depth minEval alpha beta
    arbitrary: v g' and v g' and v g'
    rule: minimax_maxLoop_minLoop.induct)
  case (1 ev game g depth alpha beta isMaximizingPlayer)
  then show ?case by simp
next
  case (2 fuel ev game g depth alpha beta isMaximizingPlayer)
  then show ?case by (auto split: if_splits simp add: Let_def)
next
  case (3 fuel ev game g depth maxEval alpha beta)
  then show ?case by simp
next
  case (4 fuel ev game m ms g depth maxEval alpha beta)
  from "4.prems" obtain g1 where g1: "move game g m = Some g1"
    by (auto split: option.splits)
  from "4.prems" g1 obtain evalValue g2
    where call: "minimax fuel ev game g1 (depth - 1) alpha beta False = Return (evalValue, g2)"
    by (auto split: outcome.splits)
  from "4.IH"(1) [OF g1 call "4.prems"(2)] have "g2 = g1" .
  with undoRestoresD [OF "4.prems"(2) g1] have restored: "undo game g2 = g" by simp
  show ?case
  proof (cases "js_le beta (Math_max alpha evalValue)")
    case True
    with "4.prems"(1) g1 call restored show ?thesis by (simp add: Let_def)
  next
    case False
    with "4.prems"(1) g1 call restored
    have "maxLoop fuel ev game ms g depth (Math_max maxEval evalValue)
            (Math_max alpha evalValue) beta = Return (v, g')"
      by (simp add: Let_def)
    moreover note "4.IH"(2) [OF g1 call refl refl refl refl False]
    ultimately show ?thesis using restored "4.prems"(2) by simp
  qed
next
  case (5 fuel ev game g depth minEval alpha beta)
  then show ?case by simp
next
  case (6 fuel ev game m ms g depth minEval alpha beta)
  from "6.prems" obtain g1 where g1: "move game g m = Some g1"
    by (auto split: option.splits)
  from "6.prems" g1 obtain evalValue g2
    where call: "minimax fuel ev game g1 (depth - 1) alpha beta True = Return (evalValue, g2)"
    by (auto split: outcome.splits)
  from "6.IH"(1) [OF g1 call "6.prems"(2)] have "g2 = g1" .
  with undoRestoresD [OF "6.prems"(2) g1] have restored: "undo game g2 = g" by simp
  show ?case
  proof (cases "js_le (Math_min beta evalValue) alpha")
    case True
    with "6.prems"(1) g1 call restored show ?thesis by (simp add: Let_def)
  next
    case False
    with "6.prems"(1) g1 call restored
    have "minLoop fuel ev game ms g depth (Math_min minEval evalValue) alpha
            (Math_min beta evalValue) = Return (v, g')"
      by (simp add: Let_def)
    moreover note "6.IH"(2) [OF g1 call refl refl refl refl False]
    ultimately show ?thesis using restored "6.prems"(2) by simp
  qed
qed


section \<open>The search returns\<close>

lemma int_Suc_minus_one: "int (Suc d) - 1 = int d"
  by simp

lemma maxLoop_returns:
  assumes "legalMovesApply game" and "undoRestores game"
    and sub: "\<And>g alpha beta isMax.
      \<exists>v. minimax fuel ev game g (depth - 1) alpha beta isMax = Return (v, g)"
  shows "set ms \<subseteq> set (moves game g) \<Longrightarrow>
      \<exists>v. maxLoop fuel ev game ms g depth maxEval alpha beta = Return (v, g)"
proof (induction ms arbitrary: maxEval alpha)
  case Nil
  show ?case by simp
next
  case (Cons m ms)
  then have "m \<in> set (moves game g)" and rest: "set ms \<subseteq> set (moves game g)" by simp_all
  with legalMovesApplyD [OF assms(1)] obtain g1 where g1: "move game g m = Some g1" by blast
  from sub obtain e where e: "minimax fuel ev game g1 (depth - 1) alpha beta False = Return (e, g1)"
    by blast
  from undoRestoresD [OF assms(2) g1] have restored: "undo game g1 = g" .
  from Cons.IH [OF rest]
  obtain v where "maxLoop fuel ev game ms g depth (Math_max maxEval e) (Math_max alpha e) beta
      = Return (v, g)" by blast
  with g1 e restored show ?case by (simp add: Let_def)
qed

lemma minLoop_returns:
  assumes "legalMovesApply game" and "undoRestores game"
    and sub: "\<And>g alpha beta isMax.
      \<exists>v. minimax fuel ev game g (depth - 1) alpha beta isMax = Return (v, g)"
  shows "set ms \<subseteq> set (moves game g) \<Longrightarrow>
      \<exists>v. minLoop fuel ev game ms g depth minEval alpha beta = Return (v, g)"
proof (induction ms arbitrary: minEval beta)
  case Nil
  show ?case by simp
next
  case (Cons m ms)
  then have "m \<in> set (moves game g)" and rest: "set ms \<subseteq> set (moves game g)" by simp_all
  with legalMovesApplyD [OF assms(1)] obtain g1 where g1: "move game g m = Some g1" by blast
  from sub obtain e where e: "minimax fuel ev game g1 (depth - 1) alpha beta True = Return (e, g1)"
    by blast
  from undoRestoresD [OF assms(2) g1] have restored: "undo game g1 = g" .
  from Cons.IH [OF rest]
  obtain v where "minLoop fuel ev game ms g depth (Math_min minEval e) alpha (Math_min beta e)
      = Return (v, g)" by blast
  with g1 e restored show ?case by (simp add: Let_def)
qed

lemma minimax_returns:
  assumes "legalMovesApply game" and "undoRestores game"
  shows "d < fuel \<Longrightarrow> \<exists>v. minimax fuel ev game g (int d) alpha beta isMax = Return (v, g)"
proof (induction d arbitrary: fuel g alpha beta isMax)
  case 0
  then obtain f where "fuel = Suc f" by (cases fuel) simp_all
  then show ?case by simp
next
  case (Suc d)
  then obtain f where f: "fuel = Suc f" "d < f" by (cases fuel) simp_all
  have sub: "\<And>g alpha beta isMax.
      \<exists>v. minimax f ev game g (int (Suc d) - 1) alpha beta isMax = Return (v, g)"
    unfolding int_Suc_minus_one using Suc.IH [OF f(2)] .
  show ?case
  proof (cases "isGameOver game g")
    case True
    with f show ?thesis by simp
  next
    case False
    show ?thesis
    proof (cases isMax)
      case True
      from maxLoop_returns [OF assms sub subset_refl]
      obtain v where "maxLoop f ev game (moves game g) g (int (Suc d)) (Val NegInfinity) alpha beta
          = Return (v, g)" by blast
      with f False True show ?thesis by (simp add: Let_def)
    next
      case isMin: False
      from minLoop_returns [OF assms sub subset_refl]
      obtain v where "minLoop f ev game (moves game g) g (int (Suc d)) (Val Infinity) alpha beta
          = Return (v, g)" by blast
      with f False isMin show ?thesis by (simp add: Let_def)
    qed
  qed
qed


section \<open>The search computes the minimax value\<close>

lemmas max_iffs = le_max_iff_disj max.bounded_iff less_max_iff_disj max_less_iff_conj

lemmas min_iffs = min_le_iff_disj min.bounded_iff min_less_iff_disj min_less_iff_conj

lemma failSoft_refl: "failSoft a b v v"
  by (simp add: failSoft_def)

lemma failSoft_cut_max:
  "failSoft a b v1 r1 \<Longrightarrow> m0 \<le> a \<Longrightarrow> a < b \<Longrightarrow> b \<le> max a r1 \<Longrightarrow>
     failSoft a b (max m0 (max v1 T')) (max m0 r1)"
  by (auto simp add: failSoft_def max_iffs)

lemma failSoft_step_max:
  "failSoft (max a r1) b (max (max m0 r1) T') R \<Longrightarrow> failSoft a b v1 r1 \<Longrightarrow> m0 \<le> a \<Longrightarrow>
     a < b \<Longrightarrow> max a r1 < b \<Longrightarrow> failSoft a b (max m0 (max v1 T')) R"
  by (auto simp add: failSoft_def max_iffs)

lemma failSoft_cut_min:
  "failSoft a b v1 r1 \<Longrightarrow> b \<le> m0 \<Longrightarrow> a < b \<Longrightarrow> min b r1 \<le> a \<Longrightarrow>
     failSoft a b (min m0 (min v1 T')) (min m0 r1)"
  by (auto simp add: failSoft_def min_iffs)

lemma failSoft_step_min:
  "failSoft a (min b r1) (min (min m0 r1) T') R \<Longrightarrow> failSoft a b v1 r1 \<Longrightarrow> b \<le> m0 \<Longrightarrow>
     a < b \<Longrightarrow> a < min b r1 \<Longrightarrow> failSoft a b (min m0 (min v1 T')) R"
  by (auto simp add: failSoft_def min_iffs)

lemma failSoft_full: "failSoft NegInfinity Infinity v r \<Longrightarrow> r = v"
  by (cases r; cases v) (auto simp add: failSoft_def less_score_def)

lemma foldr_Math_max_Val:
  "(\<And>x. x \<in> set xs \<Longrightarrow> \<exists>v. f x = Val v) \<Longrightarrow>
     \<exists>T. foldr Math_max (map f xs) (Val NegInfinity) = Val T"
  by (induction xs) fastforce+

lemma foldr_Math_min_Val:
  "(\<And>x. x \<in> set xs \<Longrightarrow> \<exists>v. f x = Val v) \<Longrightarrow>
     \<exists>T. foldr Math_min (map f xs) (Val Infinity) = Val T"
  by (induction xs) fastforce+

lemma exhaustive_Val:
  assumes "\<And>g. \<exists>s. ev game g = Val s"
  shows "\<exists>v. exhaustive ev game d g isMax = Val v"
proof (induction d arbitrary: g isMax)
  case 0
  show ?case using assms by simp
next
  case (Suc d)
  show ?case
    using assms foldr_Math_max_Val [of "children game g" "\<lambda>c. exhaustive ev game d c False"]
      foldr_Math_min_Val [of "children game g" "\<lambda>c. exhaustive ev game d c True"] Suc.IH
    by simp
qed

lemma NegInfinity_least [simp]: "NegInfinity \<le> (x :: score)"
  by simp

lemma Infinity_greatest [simp]: "(x :: score) \<le> Infinity"
  by (cases x) simp_all

lemma max_NegInfinity [simp]: "max NegInfinity (x :: score) = x" "max x NegInfinity = x"
  by (cases x; simp add: max_def)+

lemma min_Infinity [simp]: "min Infinity (x :: score) = x" "min x Infinity = x"
  by (cases x; simp add: min_def)+

lemma maxLoop_failSoft:
  assumes "legalMovesApply game" and "undoRestores game"
    and nonNaN: "\<And>g. \<exists>s. ev game g = Val s"
    and sub: "\<And>g a b. a < b \<Longrightarrow>
      \<exists>r v. minimax fuel ev game g (int d) (Val a) (Val b) False = Return (Val r, g)
        \<and> exhaustive ev game d g False = Val v \<and> failSoft a b v r"
  shows "set ms \<subseteq> set (moves game g) \<Longrightarrow> m0 \<le> a \<Longrightarrow> a < b \<Longrightarrow>
      \<exists>R T. maxLoop fuel ev game ms g (int (Suc d)) (Val m0) (Val a) (Val b) = Return (Val R, g)
        \<and> foldr Math_max (map (\<lambda>c. exhaustive ev game d c False)
              (List.map_filter (move game g) ms)) (Val NegInfinity) = Val T
        \<and> failSoft a b (max m0 T) R"
proof (induction ms arbitrary: m0 a)
  case Nil
  show ?case by (simp add: failSoft_refl)
next
  case (Cons m ms)
  then have "m \<in> set (moves game g)" and rest: "set ms \<subseteq> set (moves game g)" by simp_all
  with legalMovesApplyD [OF assms(1)] obtain g1 where g1: "move game g m = Some g1" by blast
  from undoRestoresD [OF assms(2) g1] have restored: "undo game g1 = g" .
  from sub [OF \<open>a < b\<close>, of g1] obtain r1 v1
    where call: "minimax fuel ev game g1 (int d) (Val a) (Val b) False = Return (Val r1, g1)"
      and v1: "exhaustive ev game d g1 False = Val v1"
      and fs1: "failSoft a b v1 r1"
    by blast
  from foldr_Math_max_Val [of "List.map_filter (move game g) ms"
      "\<lambda>c. exhaustive ev game d c False"] exhaustive_Val [of ev game, OF nonNaN]
  obtain T' where T': "foldr Math_max (map (\<lambda>c. exhaustive ev game d c False)
      (List.map_filter (move game g) ms)) (Val NegInfinity) = Val T'"
    by blast
  have T: "foldr Math_max (map (\<lambda>c. exhaustive ev game d c False)
      (List.map_filter (move game g) (m # ms))) (Val NegInfinity) = Val (max v1 T')"
    using g1 v1 T' by simp
  show ?case
  proof (cases "b \<le> max a r1")
    case True
    have "maxLoop fuel ev game (m # ms) g (int (Suc d)) (Val m0) (Val a) (Val b)
        = Return (Val (max m0 r1), g)"
      using g1 call restored True by (simp add: Let_def)
    moreover have "failSoft a b (max m0 (max v1 T')) (max m0 r1)"
      using fs1 \<open>m0 \<le> a\<close> \<open>a < b\<close> True by (rule failSoft_cut_max)
    ultimately show ?thesis using T by blast
  next
    case False
    then have window: "max a r1 < b" by (simp only: not_le)
    have inv: "max m0 r1 \<le> max a r1" using \<open>m0 \<le> a\<close> by (auto simp add: max_iffs)
    from Cons.IH [OF rest inv window] T' obtain R
      where loop: "maxLoop fuel ev game ms g (int (Suc d)) (Val (max m0 r1)) (Val (max a r1)) (Val b)
          = Return (Val R, g)"
        and fs: "failSoft (max a r1) b (max (max m0 r1) T') R"
      by auto
    have "maxLoop fuel ev game (m # ms) g (int (Suc d)) (Val m0) (Val a) (Val b)
        = Return (Val R, g)"
      using g1 call restored False loop by (simp add: Let_def)
    moreover have "failSoft a b (max m0 (max v1 T')) R"
      using fs fs1 \<open>m0 \<le> a\<close> \<open>a < b\<close> window by (rule failSoft_step_max)
    ultimately show ?thesis using T by blast
  qed
qed

lemma minLoop_failSoft:
  assumes "legalMovesApply game" and "undoRestores game"
    and nonNaN: "\<And>g. \<exists>s. ev game g = Val s"
    and sub: "\<And>g a b. a < b \<Longrightarrow>
      \<exists>r v. minimax fuel ev game g (int d) (Val a) (Val b) True = Return (Val r, g)
        \<and> exhaustive ev game d g True = Val v \<and> failSoft a b v r"
  shows "set ms \<subseteq> set (moves game g) \<Longrightarrow> b \<le> m0 \<Longrightarrow> a < b \<Longrightarrow>
      \<exists>R T. minLoop fuel ev game ms g (int (Suc d)) (Val m0) (Val a) (Val b) = Return (Val R, g)
        \<and> foldr Math_min (map (\<lambda>c. exhaustive ev game d c True)
              (List.map_filter (move game g) ms)) (Val Infinity) = Val T
        \<and> failSoft a b (min m0 T) R"
proof (induction ms arbitrary: m0 b)
  case Nil
  show ?case by (simp add: failSoft_refl)
next
  case (Cons m ms)
  then have "m \<in> set (moves game g)" and rest: "set ms \<subseteq> set (moves game g)" by simp_all
  with legalMovesApplyD [OF assms(1)] obtain g1 where g1: "move game g m = Some g1" by blast
  from undoRestoresD [OF assms(2) g1] have restored: "undo game g1 = g" .
  from sub [OF \<open>a < b\<close>, of g1] obtain r1 v1
    where call: "minimax fuel ev game g1 (int d) (Val a) (Val b) True = Return (Val r1, g1)"
      and v1: "exhaustive ev game d g1 True = Val v1"
      and fs1: "failSoft a b v1 r1"
    by blast
  from foldr_Math_min_Val [of "List.map_filter (move game g) ms"
      "\<lambda>c. exhaustive ev game d c True"] exhaustive_Val [of ev game, OF nonNaN]
  obtain T' where T': "foldr Math_min (map (\<lambda>c. exhaustive ev game d c True)
      (List.map_filter (move game g) ms)) (Val Infinity) = Val T'"
    by blast
  have T: "foldr Math_min (map (\<lambda>c. exhaustive ev game d c True)
      (List.map_filter (move game g) (m # ms))) (Val Infinity) = Val (min v1 T')"
    using g1 v1 T' by simp
  show ?case
  proof (cases "min b r1 \<le> a")
    case True
    have "minLoop fuel ev game (m # ms) g (int (Suc d)) (Val m0) (Val a) (Val b)
        = Return (Val (min m0 r1), g)"
      using g1 call restored True by (simp add: Let_def)
    moreover have "failSoft a b (min m0 (min v1 T')) (min m0 r1)"
      using fs1 \<open>b \<le> m0\<close> \<open>a < b\<close> True by (rule failSoft_cut_min)
    ultimately show ?thesis using T by blast
  next
    case False
    then have window: "a < min b r1" by (simp only: not_le)
    have inv: "min b r1 \<le> min m0 r1" using \<open>b \<le> m0\<close> by (auto simp add: min_iffs)
    from Cons.IH [OF rest inv window] T' obtain R
      where loop: "minLoop fuel ev game ms g (int (Suc d)) (Val (min m0 r1)) (Val a) (Val (min b r1))
          = Return (Val R, g)"
        and fs: "failSoft a (min b r1) (min (min m0 r1) T') R"
      by auto
    have "minLoop fuel ev game (m # ms) g (int (Suc d)) (Val m0) (Val a) (Val b)
        = Return (Val R, g)"
      using g1 call restored False loop by (simp add: Let_def)
    moreover have "failSoft a b (min m0 (min v1 T')) R"
      using fs fs1 \<open>b \<le> m0\<close> \<open>a < b\<close> window by (rule failSoft_step_min)
    ultimately show ?thesis using T by blast
  qed
qed

lemma minimax_failSoft:
  assumes "legalMovesApply game" and "undoRestores game"
    and nonNaN: "\<And>g. \<exists>s. ev game g = Val s"
  shows "d < fuel \<Longrightarrow> a < b \<Longrightarrow>
      \<exists>r v. minimax fuel ev game g (int d) (Val a) (Val b) isMax = Return (Val r, g)
        \<and> exhaustive ev game d g isMax = Val v \<and> failSoft a b v r"
proof (induction d arbitrary: fuel g a b isMax)
  case 0
  then obtain f where f: "fuel = Suc f" by (cases fuel) simp_all
  from nonNaN obtain s where "ev game g = Val s" by blast
  with f show ?case by (simp add: failSoft_refl)
next
  case (Suc d)
  then obtain f where f: "fuel = Suc f" "d < f" by (cases fuel) simp_all
  show ?case
  proof (cases "isGameOver game g")
    case True
    from nonNaN obtain s where "ev game g = Val s" by blast
    with f True show ?thesis by (simp add: failSoft_refl)
  next
    case False
    show ?thesis
    proof (cases isMax)
      case True
      have sub: "\<And>g a b. a < b \<Longrightarrow>
          \<exists>r v. minimax f ev game g (int d) (Val a) (Val b) False = Return (Val r, g)
            \<and> exhaustive ev game d g False = Val v \<and> failSoft a b v r"
        using Suc.IH [OF f(2)] by blast
      from maxLoop_failSoft [OF assms sub subset_refl _ \<open>a < b\<close>, of NegInfinity g]
      obtain R T where "maxLoop f ev game (moves game g) g (int (Suc d)) (Val NegInfinity) (Val a) (Val b)
            = Return (Val R, g)"
        and "foldr Math_max (map (\<lambda>c. exhaustive ev game d c False) (children game g))
            (Val NegInfinity) = Val T"
        and "failSoft a b T R"
        by (auto simp add: children_def)
      with f False True show ?thesis by (simp add: Let_def)
    next
      case isMin: False
      have sub: "\<And>g a b. a < b \<Longrightarrow>
          \<exists>r v. minimax f ev game g (int d) (Val a) (Val b) True = Return (Val r, g)
            \<and> exhaustive ev game d g True = Val v \<and> failSoft a b v r"
        using Suc.IH [OF f(2)] by blast
      from minLoop_failSoft [OF assms sub subset_refl _ \<open>a < b\<close>, of Infinity g]
      obtain R T where "minLoop f ev game (moves game g) g (int (Suc d)) (Val Infinity) (Val a) (Val b)
            = Return (Val R, g)"
        and "foldr Math_min (map (\<lambda>c. exhaustive ev game d c True) (children game g))
            (Val Infinity) = Val T"
        and "failSoft a b T R"
        by (auto simp add: children_def)
      with f False isMin show ?thesis by (simp add: Let_def)
    qed
  qed
qed

lemma minimax_exhaustive:
  assumes "legalMovesApply game" and "undoRestores game"
    and nonNaN: "\<And>g. \<exists>s. ev game g = Val s"
    and "d < fuel"
  shows "minimax fuel ev game g (int d) (Val NegInfinity) (Val Infinity) isMax
      = Return (exhaustive ev game d g isMax, g)"
proof -
  have "NegInfinity < Infinity" by (simp add: less_score_def)
  from minimax_failSoft [of game ev, OF assms(1,2) nonNaN \<open>d < fuel\<close> this, of g isMax]
  obtain r v where "minimax fuel ev game g (int d) (Val NegInfinity) (Val Infinity) isMax
      = Return (Val r, g)" and "exhaustive ev game d g isMax = Val v"
    and "failSoft NegInfinity Infinity v r"
    by blast
  with failSoft_full show ?thesis by simp
qed


section \<open>Move selection\<close>

lemma bestLoop_frame:
  assumes "undoRestores game"
  shows "bestLoop fuel ev game ms g depth bestMove bestValue = Return (r, g') \<Longrightarrow> g' = g"
proof (induction ms arbitrary: bestMove bestValue)
  case Nil
  then show ?case by simp
next
  case (Cons m ms)
  from Cons.prems obtain g1 where g1: "move game g m = Some g1"
    by (auto split: option.splits)
  from Cons.prems g1 obtain boardValue g2
    where call: "minimax fuel ev game g1 (depth - 1) (Val NegInfinity) (Val Infinity)
        (turn game g1 = W) = Return (boardValue, g2)"
    by (auto split: outcome.splits)
  from minimax_frame(1) [OF assms call] have "g2 = g1" .
  with undoRestoresD [OF assms g1] have restored: "undo game g2 = g" by simp
  from Cons.prems g1 call restored
  have "\<exists>bm bv. bestLoop fuel ev game ms g depth bm bv = Return (r, g')"
    by (auto simp add: Let_def split: if_splits)
  with Cons.IH show ?case by blast
qed

lemma bestLoop10_frame:
  assumes "undoRestores game"
  shows "bestLoop10 fuel game ms g isMaximizing bestMove bestValue = Return (r, g') \<Longrightarrow> g' = g"
proof (induction ms arbitrary: bestMove bestValue)
  case Nil
  then show ?case by simp
next
  case (Cons m ms)
  from Cons.prems obtain g1 where g1: "move game g m = Some g1"
    by (auto split: option.splits)
  from Cons.prems g1 obtain boardValue g2
    where call: "minimax fuel evaluateBoard10 game g1 (3 - 1) (Val NegInfinity) (Val Infinity)
        (\<not> isMaximizing) = Return (boardValue, g2)"
    by (auto split: outcome.splits)
  from minimax_frame(1) [OF assms call] have "g2 = g1" .
  with undoRestoresD [OF assms g1] have restored: "undo game g2 = g" by simp
  from Cons.prems g1 call restored
  have "\<exists>bm bv. bestLoop10 fuel game ms g isMaximizing bm bv = Return (r, g')"
    by (auto simp add: Let_def split: if_splits)
  with Cons.IH show ?case by blast
qed

lemma bestLoop_returns:
  assumes "legalMovesApply game" and "undoRestores game"
    and sub: "\<And>g alpha beta isMax.
      \<exists>v. minimax fuel ev game g (depth - 1) alpha beta isMax = Return (v, g)"
  shows "set ms \<subseteq> set (moves game g) \<Longrightarrow>
      \<exists>r. bestLoop fuel ev game ms g depth bestMove bestValue = Return (r, g)
        \<and> (r = bestMove \<or> r \<in> Some ` set ms)"
proof (induction ms arbitrary: bestMove bestValue)
  case Nil
  show ?case by simp
next
  case (Cons m ms)
  then have "m \<in> set (moves game g)" and rest: "set ms \<subseteq> set (moves game g)" by simp_all
  with legalMovesApplyD [OF assms(1)] obtain g1 where g1: "move game g m = Some g1" by blast
  from sub obtain e where e: "minimax fuel ev game g1 (depth - 1) (Val NegInfinity) (Val Infinity)
      (turn game g1 = W) = Return (e, g1)"
    by blast
  from undoRestoresD [OF assms(2) g1] have restored: "undo game g1 = g" .
  from Cons.IH [OF rest, of "Some m" e] Cons.IH [OF rest, of bestMove bestValue] g1 e restored
  show ?case by (auto simp add: Let_def)
qed

lemma bestLoop10_returns:
  assumes "legalMovesApply game" and "undoRestores game"
    and sub: "\<And>g alpha beta isMax.
      \<exists>v. minimax fuel evaluateBoard10 game g (3 - 1) alpha beta isMax = Return (v, g)"
  shows "set ms \<subseteq> set (moves game g) \<Longrightarrow>
      \<exists>r. bestLoop10 fuel game ms g isMaximizing bestMove bestValue = Return (r, g)
        \<and> (r = bestMove \<or> r \<in> Some ` set ms)"
proof (induction ms arbitrary: bestMove bestValue)
  case Nil
  show ?case by simp
next
  case (Cons m ms)
  then have "m \<in> set (moves game g)" and rest: "set ms \<subseteq> set (moves game g)" by simp_all
  with legalMovesApplyD [OF assms(1)] obtain g1 where g1: "move game g m = Some g1" by blast
  from sub obtain e where e: "minimax fuel evaluateBoard10 game g1 (3 - 1) (Val NegInfinity)
      (Val Infinity) (\<not> isMaximizing) = Return (e, g1)"
    by blast
  from undoRestoresD [OF assms(2) g1] have restored: "undo game g1 = g" .
  from Cons.IH [OF rest, of "Some m" e] Cons.IH [OF rest, of bestMove bestValue] g1 e restored
  show ?case by (auto simp add: Let_def)
qed

lemma js_or_member:
  assumes "ms \<noteq> []" and "r = None \<or> r \<in> Some ` set ms"
  shows "\<exists>m \<in> set ms. js_or r (nth_opt ms 0) = Some m"
proof -
  from assms(1) have first: "nth_opt ms 0 = Some (hd ms)" "hd ms \<in> set ms"
    by (simp_all add: nth_opt_def hd_conv_nth)
  with assms(2) show ?thesis
    by (cases r) (auto simp add: js_or_def)
qed

lemma minimax_returns_int:
  assumes "legalMovesApply game" and "undoRestores game" and "0 \<le> depth" and "nat depth < fuel"
  shows "\<exists>v. minimax fuel ev game g depth alpha beta isMax = Return (v, g)"
  using minimax_returns [OF assms(1,2,4), of ev g alpha beta isMax] assms(3) by simp


section \<open>Scores are numbers\<close>

lemma maxLoop_Val:
  assumes nonNaN: "\<And>g. \<exists>s. ev game g = Val s"
    and sub: "\<And>g depth alpha beta isMax v g'.
      minimax fuel ev game g depth alpha beta isMax = Return (v, g') \<Longrightarrow> \<exists>s. v = Val s"
  shows "maxLoop fuel ev game ms g depth (Val M) alpha beta = Return (v, g') \<Longrightarrow> \<exists>s. v = Val s"
proof (induction ms arbitrary: M g alpha)
  case Nil
  then show ?case by auto
next
  case (Cons m ms)
  from Cons.prems obtain g1 where g1: "move game g m = Some g1"
    by (auto split: option.splits)
  from Cons.prems g1 obtain e g2
    where call: "minimax fuel ev game g1 (depth - 1) alpha beta False = Return (e, g2)"
    by (auto split: outcome.splits)
  from sub [OF call] obtain s where s: "e = Val s" by blast
  from Cons.prems g1 call s
  have "v = Val (max M s) \<or>
      (\<exists>g3 a. maxLoop fuel ev game ms g3 depth (Val (max M s)) a beta = Return (v, g'))"
    by (auto simp add: Let_def split: if_splits)
  with Cons.IH show ?case by blast
qed

lemma minLoop_Val:
  assumes nonNaN: "\<And>g. \<exists>s. ev game g = Val s"
    and sub: "\<And>g depth alpha beta isMax v g'.
      minimax fuel ev game g depth alpha beta isMax = Return (v, g') \<Longrightarrow> \<exists>s. v = Val s"
  shows "minLoop fuel ev game ms g depth (Val M) alpha beta = Return (v, g') \<Longrightarrow> \<exists>s. v = Val s"
proof (induction ms arbitrary: M g beta)
  case Nil
  then show ?case by auto
next
  case (Cons m ms)
  from Cons.prems obtain g1 where g1: "move game g m = Some g1"
    by (auto split: option.splits)
  from Cons.prems g1 obtain e g2
    where call: "minimax fuel ev game g1 (depth - 1) alpha beta True = Return (e, g2)"
    by (auto split: outcome.splits)
  from sub [OF call] obtain s where s: "e = Val s" by blast
  from Cons.prems g1 call s
  have "v = Val (min M s) \<or>
      (\<exists>g3 b. minLoop fuel ev game ms g3 depth (Val (min M s)) alpha b = Return (v, g'))"
    by (auto simp add: Let_def split: if_splits)
  with Cons.IH show ?case by blast
qed

lemma minimax_Val:
  assumes nonNaN: "\<And>g. \<exists>s. ev game g = Val s"
  shows "minimax fuel ev game g depth alpha beta isMax = Return (v, g') \<Longrightarrow> \<exists>s. v = Val s"
proof (induction fuel arbitrary: g depth alpha beta isMax v g')
  case 0
  then show ?case by simp
next
  case (Suc fuel)
  show ?case
  proof (cases "depth = 0 \<or> isGameOver game g")
    case True
    with Suc.prems nonNaN [of g] show ?thesis by auto
  next
    case False
    with Suc.prems
    have "maxLoop fuel ev game (moves game g) g depth (Val NegInfinity) alpha beta = Return (v, g')
        \<or> minLoop fuel ev game (moves game g) g depth (Val Infinity) alpha beta = Return (v, g')"
      by (auto simp add: Let_def split: if_splits)
    then show ?thesis
    proof
      assume "maxLoop fuel ev game (moves game g) g depth (Val NegInfinity) alpha beta
          = Return (v, g')"
      then show ?thesis
        by (rule maxLoop_Val [where ev = ev and game = game, rotated 2])
          (rule nonNaN, erule Suc.IH)
    next
      assume "minLoop fuel ev game (moves game g) g depth (Val Infinity) alpha beta
          = Return (v, g')"
      then show ?thesis
        by (rule minLoop_Val [where ev = ev and game = game, rotated 2])
          (rule nonNaN, erule Suc.IH)
    qed
  qed
qed


section \<open>The best move at depth 1\<close>

lemma bestLoop_maximizes:
  assumes "legalMovesApply game" and "undoRestores game"
    and finite: "\<And>g. \<exists>x. ev game g = Val (Num x)"
    and white: "turn game g = W"
  shows "set ms \<subseteq> set (moves game g) \<Longrightarrow> bestSoFar ev game g bm bv \<Longrightarrow>
      \<exists>bm' bv'. bestLoop (Suc fuel) ev game ms g 1 bm (Val bv) = Return (bm', g)
        \<and> bestSoFar ev game g bm' bv'
        \<and> bv \<le> bv'
        \<and> (\<forall>m' \<in> set ms. \<forall>g'. move game g m' = Some g' \<longrightarrow> js_le (ev game g') (Val bv'))"
proof (induction ms arbitrary: bm bv)
  case Nil
  then show ?case by auto
next
  case (Cons m ms)
  then have legal: "m \<in> set (moves game g)" and rest: "set ms \<subseteq> set (moves game g)" by simp_all
  with legalMovesApplyD [OF assms(1)] obtain g1 where g1: "move game g m = Some g1" by blast
  from undoRestoresD [OF assms(2) g1] have restored: "undo game g1 = g" .
  from finite obtain x where x: "ev game g1 = Val (Num x)" by blast
  have call: "minimax (Suc fuel) ev game g1 (1 - 1) (Val NegInfinity) (Val Infinity)
      (turn game g1 = W) = Return (Val (Num x), g1)"
    using x by simp
  show ?case
  proof (cases "bv < Num x")
    case True
    have "bestSoFar ev game g (Some m) (Num x)"
      using legal g1 x by (simp add: bestSoFar_def)
    from Cons.IH [OF rest this] obtain bm' bv'
      where loop: "bestLoop (Suc fuel) ev game ms g 1 (Some m) (Val (Num x)) = Return (bm', g)"
        and best: "bestSoFar ev game g bm' bv'" and grows: "Num x \<le> bv'"
        and bound: "\<forall>m' \<in> set ms. \<forall>g'. move game g m' = Some g' \<longrightarrow> js_le (ev game g') (Val bv')"
      by blast
    have "bestLoop (Suc fuel) ev game (m # ms) g 1 bm (Val bv) = Return (bm', g)"
      using g1 call restored white True loop by (simp add: Let_def)
    moreover have "bv \<le> bv'" using True grows by simp
    moreover have "\<forall>m' \<in> set (m # ms). \<forall>g'. move game g m' = Some g' \<longrightarrow>
        js_le (ev game g') (Val bv')"
      using bound g1 x grows by auto
    ultimately show ?thesis using best by blast
  next
    case False
    from Cons.IH [OF rest Cons.prems(2)] obtain bm' bv'
      where loop: "bestLoop (Suc fuel) ev game ms g 1 bm (Val bv) = Return (bm', g)"
        and best: "bestSoFar ev game g bm' bv'" and grows: "bv \<le> bv'"
        and bound: "\<forall>m' \<in> set ms. \<forall>g'. move game g m' = Some g' \<longrightarrow> js_le (ev game g') (Val bv')"
      by blast
    have "bestLoop (Suc fuel) ev game (m # ms) g 1 bm (Val bv) = Return (bm', g)"
      using g1 call restored white False loop by (simp add: Let_def)
    moreover have "\<forall>m' \<in> set (m # ms). \<forall>g'. move game g m' = Some g' \<longrightarrow>
        js_le (ev game g') (Val bv')"
      using bound g1 x grows False by auto
    ultimately show ?thesis using best grows by blast
  qed
qed

lemma evaluateBoard_finite:
  "typedBoards game \<Longrightarrow> \<exists>x. evaluateBoard game g = Val (Num x)"
  by (simp add: typedBoards_def evaluateBoard_typed)

lemma evaluateBoard10_finite:
  "typedBoards game \<Longrightarrow> \<exists>x. evaluateBoard10 game g = Val (Num x)"
  by (simp add: typedBoards_def evaluateBoard10_typed)


section \<open>The example game and the helpers of move selection\<close>

lemma pawnGame_legal: "legalMovesApply pawnGame"
  by (simp add: legalMovesApply_def pawnGame_def)

lemma pawnGame_undo: "undoRestores pawnGame"
  by (auto simp add: undoRestores_def pawnGame_def split: if_splits)

lemma pawnGame_typed: "typedBoards pawnGame"
  by (simp add: typedBoards_def typedBoard_def list_all_iff typedSquare_def pawnGame_def
      PIECE_VALUES_def)

lemma pawnGame_san: "sanMoves pawnGame"
  by (simp add: sanMoves_def pawnGame_def)

lemma pawnGame_fields:
  "moves pawnGame g = (if length g < 3 then [''a'', ''b''] else [])"
  "move pawnGame g m = (if length g < 3 \<and> (m = ''a'' \<or> m = ''b'') then Some (g @ [m]) else None)"
  "undo pawnGame g = butlast g"
  "isGameOver pawnGame g = (3 \<le> length g)"
  "turn pawnGame g = (if even (length g) then W else B)"
  by (simp_all add: pawnGame_def)

lemma pawnGame_leaves:
  "evaluateBoard pawnGame [''a''] = Val (Num 1)"
  "evaluateBoard pawnGame [''b''] = Val (Num (- 1))"
  "evaluateBoard pawnGame [''a'', ''a''] = Val (Num 2)"
  "evaluateBoard pawnGame [''a'', ''b''] = Val (Num 0)"
  "evaluateBoard pawnGame [''b'', ''a''] = Val (Num 0)"
  "evaluateBoard pawnGame [''b'', ''b''] = Val (Num (- 2))"
  by code_simp+

lemma pawnGame_leaves10:
  "evaluateBoard10 pawnGame [''a'', ''a''] = Val (Num 20)"
  "evaluateBoard10 pawnGame [''a'', ''b''] = Val (Num 0)"
  "evaluateBoard10 pawnGame [''b'', ''a''] = Val (Num 0)"
  "evaluateBoard10 pawnGame [''b'', ''b''] = Val (Num (- 20))"
  by code_simp+

lemma pawnGame_final:
  "evaluateBoard pawnGame [''a'', ''a'', ''b''] = Val (Num 1)"
  "evaluateBoard10 pawnGame [''a'', ''a'', ''b''] = Val (Num 10)"
  by code_simp+

lemma shuffle_set:
  assumes "mset ms' = mset ms" and "ms \<noteq> []"
  shows "set ms' = set ms" and "ms' \<noteq> []"
  using assms mset_eq_setD [OF assms(1)] by auto

lemma getRandomMove_member:
  assumes "moves game g \<noteq> []" and "rnd (length (moves game g)) < length (moves game g)"
  shows "\<exists>m \<in> set (moves game g). getRandomMove rnd game g = Some m"
  using assms by (simp add: getRandomMove_def nth_opt_def Let_def)

lemma getBestMove_member:
  assumes "moves game g \<noteq> []" and "legalMovesApply game" and "undoRestores game"
    and "mset (shuffle (moves game g)) = mset (moves game g)"
    and "1 \<le> depth" and "nat (depth - 1) < fuel"
  shows "\<exists>m \<in> set (moves game g). getBestMove fuel shuffle game g depth = Return (Some m, g)"
proof -
  let ?ms = "shuffle (moves game g)"
  let ?bv = "if turn game g = W then Val NegInfinity else Val Infinity"
  from shuffle_set [OF assms(4,1)]
  have same: "set ?ms = set (moves game g)" and nonempty: "?ms \<noteq> []" .
  have sub: "\<And>g alpha beta isMax.
      \<exists>v. minimax fuel evaluateBoard game g (depth - 1) alpha beta isMax = Return (v, g)"
    using minimax_returns_int [OF assms(2,3) _ assms(6)] assms(5) by simp
  from bestLoop_returns [OF assms(2,3) sub, of ?ms g None ?bv] same
  obtain r where loop: "bestLoop fuel evaluateBoard game ?ms g depth None ?bv = Return (r, g)"
    and r: "r = None \<or> r \<in> Some ` set ?ms"
    by auto
  from js_or_member [OF nonempty r] same
  obtain m where "m \<in> set (moves game g)" and "js_or r (nth_opt ?ms 0) = Some m"
    by auto
  with loop assms(1) show ?thesis
    by (auto simp add: getBestMove_def Let_def)
qed

lemma getBestMove10_member:
  assumes "moves game g \<noteq> []" and "legalMovesApply game" and "undoRestores game"
    and "mset (shuffle (moves game g)) = mset (moves game g)"
    and "2 < fuel"
  shows "\<exists>m \<in> set (moves game g). getBestMove10 fuel shuffle game g = Return (Some m, g)"
proof -
  let ?ms = "shuffle (moves game g)"
  let ?bv = "if turn game g = W then Val NegInfinity else Val Infinity"
  from shuffle_set [OF assms(4,1)]
  have same: "set ?ms = set (moves game g)" and nonempty: "?ms \<noteq> []" .
  have sub: "\<And>g alpha beta isMax.
      \<exists>v. minimax fuel evaluateBoard10 game g (3 - 1) alpha beta isMax = Return (v, g)"
    using minimax_returns_int [OF assms(2,3), of "3 - 1" fuel] assms(5) by simp
  from bestLoop10_returns [OF assms(2,3) sub, of ?ms g "turn game g = W" None ?bv] same
  obtain r where loop: "bestLoop10 fuel game ?ms g (turn game g = W) None ?bv = Return (r, g)"
    and r: "r = None \<or> r \<in> Some ` set ?ms"
    by auto
  from js_or_member [OF nonempty r] same
  obtain m where "m \<in> set (moves game g)" and "js_or r (nth_opt ?ms 0) = Some m"
    by auto
  with loop assms(1) show ?thesis
    by (auto simp add: getBestMove10_def Let_def)
qed

lemma pawnGame_search:
  "minimax 3 evaluateBoard pawnGame [] 2 (Val NegInfinity) (Val Infinity) True
     = Return (Val (Num 0), [])"
  by (simp add: numeral_3_eq_3 pawnGame_fields pawnGame_leaves less_score_def)

lemma pawnGame_best:
  "getBestMove 3 rev pawnGame [] 2 = Return (Some ''a'', [])"
  by (simp add: getBestMove_def numeral_3_eq_3 pawnGame_fields pawnGame_leaves less_score_def
      js_or_def nth_opt_def)

lemma pawnGame_best1:
  "getBestMove 1 rev pawnGame [] 1 = Return (Some ''a'', [])"
  by (simp add: getBestMove_def pawnGame_fields pawnGame_leaves less_score_def
      js_or_def nth_opt_def)

section \<open>Properties of the search and of move selection\<close>

text \<open>
  C6. \<open>minimax\<close> returns \<open>evaluateBoard(game)\<close> whenever \<open>depth === 0\<close> or the game is
  over, whatever the window and the side; no win or loss constant is involved, so a
  finished game scores by the material left on the board. (One unit of fuel is the call
  itself.)
\<close>

theorem minimax_base_case:
  assumes "depth = 0 \<or> isGameOver game g"
  shows "minimax (Suc fuel) evaluateBoard game g depth alpha beta isMaximizingPlayer
           = Return (evaluateBoard game g, g)
         \<and> minimax (Suc fuel) evaluateBoard10 game g depth alpha beta isMaximizingPlayer
           = Return (evaluateBoard10 game g, g)"
  using assms by auto

theorem minimax_base_case_witness:
  "((2 :: int) = 0 \<or> isGameOver pawnGame [''a'', ''a'', ''b''])
   \<and> minimax (Suc 0) evaluateBoard pawnGame [''a'', ''a'', ''b''] 2 (Val NegInfinity)
         (Val Infinity) False = Return (Val (Num 1), [''a'', ''a'', ''b''])
   \<and> minimax (Suc 0) evaluateBoard10 pawnGame [''a'', ''a'', ''b''] 2 (Val NegInfinity)
         (Val Infinity) False = Return (Val (Num 10), [''a'', ''a'', ''b''])"
proof -
  have over: "(2 :: int) = 0 \<or> isGameOver pawnGame [''a'', ''a'', ''b'']"
    by (simp add: pawnGame_fields)
  from minimax_base_case [OF over, of 0 "Val NegInfinity" "Val Infinity" False] over
  show ?thesis by (simp only: pawnGame_final simp_thms)
qed

text \<open>
  C10. Over a collaborator that keeps its contract (legal moves apply, undo restores),
  \<open>minimax\<close> called with a depth of 0 or more returns: with fuel for \<open>depth + 1\<close> nested
  calls it never throws and never runs out, and the position is back where it was. The
  value is a number, not \<open>NaN\<close> and not a string, when the boards are typed.
  \<open>evaluateBoard\<close> has no error path at all and returns a finite number on typed boards.
  Both hold in both engines.
\<close>

theorem minimax_total:
  assumes "legalMovesApply game" and "undoRestores game" and "0 \<le> depth" and "nat depth < fuel"
  shows "(\<exists>v. minimax fuel evaluateBoard game g depth alpha beta isMaximizingPlayer = Return (v, g)
            \<and> (typedBoards game \<longrightarrow> (\<exists>s. v = Val s)))
         \<and> (\<exists>v. minimax fuel evaluateBoard10 game g depth alpha beta isMaximizingPlayer
               = Return (v, g)
            \<and> (typedBoards game \<longrightarrow> (\<exists>s. v = Val s)))
         \<and> (typedBoards game \<longrightarrow>
              (\<exists>x. evaluateBoard game g = Val (Num x))
              \<and> (\<exists>x. evaluateBoard10 game g = Val (Num x)))"
proof (intro conjI)
  from minimax_returns_int [OF assms, of evaluateBoard g alpha beta isMaximizingPlayer]
  obtain v where v: "minimax fuel evaluateBoard game g depth alpha beta isMaximizingPlayer
      = Return (v, g)"
    by blast
  have "typedBoards game \<longrightarrow> (\<exists>s. v = Val s)"
  proof
    assume typed: "typedBoards game"
    have "\<And>g. \<exists>s. evaluateBoard game g = Val s"
      using evaluateBoard_finite [OF typed] by blast
    from minimax_Val [of evaluateBoard game, OF this v] show "\<exists>s. v = Val s" .
  qed
  with v show "\<exists>v. minimax fuel evaluateBoard game g depth alpha beta isMaximizingPlayer
      = Return (v, g) \<and> (typedBoards game \<longrightarrow> (\<exists>s. v = Val s))"
    by blast
next
  from minimax_returns_int [OF assms, of evaluateBoard10 g alpha beta isMaximizingPlayer]
  obtain v where v: "minimax fuel evaluateBoard10 game g depth alpha beta isMaximizingPlayer
      = Return (v, g)"
    by blast
  have "typedBoards game \<longrightarrow> (\<exists>s. v = Val s)"
  proof
    assume typed: "typedBoards game"
    have "\<And>g. \<exists>s. evaluateBoard10 game g = Val s"
      using evaluateBoard10_finite [OF typed] by blast
    from minimax_Val [of evaluateBoard10 game, OF this v] show "\<exists>s. v = Val s" .
  qed
  with v show "\<exists>v. minimax fuel evaluateBoard10 game g depth alpha beta isMaximizingPlayer
      = Return (v, g) \<and> (typedBoards game \<longrightarrow> (\<exists>s. v = Val s))"
    by blast
next
  show "typedBoards game \<longrightarrow>
      (\<exists>x. evaluateBoard game g = Val (Num x)) \<and> (\<exists>x. evaluateBoard10 game g = Val (Num x))"
    using evaluateBoard_finite [of game g] evaluateBoard10_finite [of game g] by blast
qed

theorem minimax_total_witness:
  "legalMovesApply pawnGame \<and> undoRestores pawnGame \<and> (0 :: int) \<le> 2 \<and> nat 2 < (3 :: nat)
   \<and> typedBoards pawnGame
   \<and> (\<exists>s. minimax 3 evaluateBoard pawnGame [''a''] 2 (Val (Num 0)) (Val (Num 1)) False
          = Return (Val s, [''a'']))
   \<and> (\<exists>s. minimax 3 evaluateBoard10 pawnGame [''a''] 2 (Val (Num 0)) (Val (Num 1)) False
          = Return (Val s, [''a'']))
   \<and> (\<exists>x. evaluateBoard pawnGame [''a''] = Val (Num x))
   \<and> (\<exists>x. evaluateBoard10 pawnGame [''a''] = Val (Num x))"
proof -
  have depth: "(0 :: int) \<le> 2" and fuel: "nat 2 < (3 :: nat)" by simp_all
  from minimax_total [OF pawnGame_legal pawnGame_undo depth fuel,
      of "[''a'']" "Val (Num 0)" "Val (Num 1)" False] pawnGame_typed
  have "(\<exists>s. minimax 3 evaluateBoard pawnGame [''a''] 2 (Val (Num 0)) (Val (Num 1)) False
          = Return (Val s, [''a'']))
   \<and> (\<exists>s. minimax 3 evaluateBoard10 pawnGame [''a''] 2 (Val (Num 0)) (Val (Num 1)) False
          = Return (Val s, [''a'']))
   \<and> (\<exists>x. evaluateBoard pawnGame [''a''] = Val (Num x))
   \<and> (\<exists>x. evaluateBoard10 pawnGame [''a''] = Val (Num x))"
    by blast
  with pawnGame_legal pawnGame_undo depth fuel pawnGame_typed show ?thesis by (intro conjI) simp_all
qed

text \<open>
  C1. Called as the engine calls it, with the window from \<open>-Infinity\<close> to \<open>Infinity\<close>,
  \<open>minimax\<close> returns exactly the value of the exhaustive minimax traversal to the same
  depth, for every position, every depth of 0 or more and either side to move: the cutoff
  \<open>beta <= alpha\<close> never changes the value. The collaborator keeps its contract: legal
  moves apply, undo restores, and the boards are typed, so that every score is a number.
\<close>

theorem alphabeta_equals_exhaustive:
  assumes "legalMovesApply game" and "undoRestores game" and "typedBoards game"
    and "0 \<le> depth" and "nat depth < fuel"
  shows "minimax fuel evaluateBoard game g depth (Val NegInfinity) (Val Infinity) isMaximizingPlayer
           = Return (exhaustive evaluateBoard game (nat depth) g isMaximizingPlayer, g)
         \<and> minimax fuel evaluateBoard10 game g depth (Val NegInfinity) (Val Infinity)
               isMaximizingPlayer
           = Return (exhaustive evaluateBoard10 game (nat depth) g isMaximizingPlayer, g)"
proof (intro conjI)
  have "\<And>g. \<exists>s. evaluateBoard game g = Val s"
    using evaluateBoard_finite [OF assms(3)] by blast
  from minimax_exhaustive [of game evaluateBoard, OF assms(1,2) this assms(5)] assms(4)
  show "minimax fuel evaluateBoard game g depth (Val NegInfinity) (Val Infinity) isMaximizingPlayer
      = Return (exhaustive evaluateBoard game (nat depth) g isMaximizingPlayer, g)"
    by simp
next
  have "\<And>g. \<exists>s. evaluateBoard10 game g = Val s"
    using evaluateBoard10_finite [OF assms(3)] by blast
  from minimax_exhaustive [of game evaluateBoard10, OF assms(1,2) this assms(5)] assms(4)
  show "minimax fuel evaluateBoard10 game g depth (Val NegInfinity) (Val Infinity)
        isMaximizingPlayer
      = Return (exhaustive evaluateBoard10 game (nat depth) g isMaximizingPlayer, g)"
    by simp
qed

theorem alphabeta_equals_exhaustive_witness:
  "legalMovesApply pawnGame \<and> undoRestores pawnGame \<and> (0 :: int) \<le> 2 \<and> nat 2 < (3 :: nat)
   \<and> typedBoards pawnGame
   \<and> minimax 3 evaluateBoard pawnGame [] 2 (Val NegInfinity) (Val Infinity) True
       = Return (Val (Num 0), [])
   \<and> exhaustive evaluateBoard pawnGame (nat 2) [] True = Val (Num 0)
   \<and> minimax 3 evaluateBoard10 pawnGame [] 2 (Val NegInfinity) (Val Infinity) True
       = Return (Val (Num 0), [])
   \<and> exhaustive evaluateBoard10 pawnGame (nat 2) [] True = Val (Num 0)"
proof -
  have depth: "(0 :: int) \<le> 2" and fuel: "nat 2 < (3 :: nat)" by simp_all
  have full: "exhaustive evaluateBoard pawnGame (nat 2) [] True = Val (Num 0)"
    by (simp add: numeral_2_eq_2 children_def List.map_filter_def pawnGame_fields pawnGame_leaves)
  have full10: "exhaustive evaluateBoard10 pawnGame (nat 2) [] True = Val (Num 0)"
    by (simp add: numeral_2_eq_2 children_def List.map_filter_def pawnGame_fields
        pawnGame_leaves10)
  note search = alphabeta_equals_exhaustive [OF pawnGame_legal pawnGame_undo pawnGame_typed
      depth fuel, of "[]" True]
  from search
  have "minimax 3 evaluateBoard pawnGame [] 2 (Val NegInfinity) (Val Infinity) True
      = Return (exhaustive evaluateBoard pawnGame (nat 2) [] True, [])"
    by (elim conjE)
  then have one: "minimax 3 evaluateBoard pawnGame [] 2 (Val NegInfinity) (Val Infinity) True
      = Return (Val (Num 0), [])"
    by (simp only: full)
  from search
  have "minimax 3 evaluateBoard10 pawnGame [] 2 (Val NegInfinity) (Val Infinity) True
      = Return (exhaustive evaluateBoard10 pawnGame (nat 2) [] True, [])"
    by (elim conjE)
  then have ten: "minimax 3 evaluateBoard10 pawnGame [] 2 (Val NegInfinity) (Val Infinity) True
      = Return (Val (Num 0), [])"
    by (simp only: full10)
  from pawnGame_legal pawnGame_undo depth fuel pawnGame_typed one full ten full10
  show ?thesis by (intro conjI)
qed

text \<open>
  C3. When \<open>undo\<close> restores what \<open>move\<close> changed, the position after \<open>getBestMove\<close>
  returns is the position before the call, so board, side to move and legal moves are the
  same; the same holds for every \<open>minimax\<close> call, whether its loop ran to the end or
  stopped at the cutoff, and for \<open>getBestMove\<close> of the fixed-depth engine.
\<close>

theorem getBestMove_restores:
  assumes "undoRestores game"
  shows "(getBestMove fuel shuffle game g depth = Return (r, g') \<longrightarrow>
           g' = g \<and> board game g' = board game g \<and> turn game g' = turn game g
           \<and> moves game g' = moves game g)
         \<and> (minimax fuel evaluateBoard game g depth alpha beta isMaximizingPlayer = Return (v, g'')
             \<longrightarrow> g'' = g)
         \<and> (getBestMove10 fuel shuffle game g = Return (r10, g10) \<longrightarrow> g10 = g)"
proof (intro conjI impI)
  assume ret: "getBestMove10 fuel shuffle game g = Return (r10, g10)"
  show "g10 = g"
  proof (cases "moves game g = []")
    case True
    with ret show ?thesis by (simp add: getBestMove10_def)
  next
    case False
    with ret obtain bm where "bestLoop10 fuel game (shuffle (moves game g)) g (turn game g = W) None
        (if turn game g = W then Val NegInfinity else Val Infinity) = Return (bm, g10)"
      by (auto simp add: getBestMove10_def Let_def split: outcome.splits)
    from bestLoop10_frame [OF assms this] show ?thesis .
  qed
next
  assume "minimax fuel evaluateBoard game g depth alpha beta isMaximizingPlayer = Return (v, g'')"
  from minimax_frame(1) [OF assms this] show "g'' = g" .
next
  assume ret: "getBestMove fuel shuffle game g depth = Return (r, g')"
  have same: "g' = g"
  proof (cases "moves game g = []")
    case True
    with ret show ?thesis by (simp add: getBestMove_def)
  next
    case False
    with ret obtain bm where "bestLoop fuel evaluateBoard game (shuffle (moves game g)) g depth None
        (if turn game g = W then Val NegInfinity else Val Infinity) = Return (bm, g')"
      by (auto simp add: getBestMove_def Let_def split: outcome.splits)
    from bestLoop_frame [OF assms this] show ?thesis .
  qed
  then show "g' = g" and "board game g' = board game g" and "turn game g' = turn game g"
    and "moves game g' = moves game g"
    by simp_all
qed

theorem getBestMove_restores_witness:
  "undoRestores pawnGame
   \<and> getBestMove 3 rev pawnGame [] 2 = Return (Some ''a'', [])
   \<and> minimax 3 evaluateBoard pawnGame [] 2 (Val NegInfinity) (Val Infinity) True
       = Return (Val (Num 0), [])
   \<and> ([] :: string list) = []
   \<and> board pawnGame [] = board pawnGame []
   \<and> turn pawnGame [] = turn pawnGame []
   \<and> moves pawnGame [] = moves pawnGame []"
proof -
  note frame = getBestMove_restores [OF pawnGame_undo, where g = "[]" and fuel = 3
      and shuffle = rev and depth = 2 and r = "Some ''a''" and g' = "[]"
      and alpha = "Val NegInfinity" and beta = "Val Infinity" and isMaximizingPlayer = True
      and v = "Val (Num 0)" and g'' = "[]"]
  from frame [THEN conjunct1, THEN mp, OF pawnGame_best]
  have "([] :: string list) = [] \<and> board pawnGame [] = board pawnGame []
      \<and> turn pawnGame [] = turn pawnGame [] \<and> moves pawnGame [] = moves pawnGame []" .
  with pawnGame_undo pawnGame_best pawnGame_search show ?thesis by (intro conjI) simp_all
qed

text \<open>
  C2. With no legal move, \<open>getBestMove\<close> (in both engines) and \<open>getRandomMove\<close> return
  \<open>null\<close>. With at least one legal move they return a member of the legal-move list:
  \<open>getRandomMove\<close> for every index that \<open>Math.floor(Math.random() * length)\<close> can
  produce, \<open>getBestMove\<close> for every order the shuffle can produce, at every depth of 1
  or more (the fixed-depth engine always searches to depth 3), over a collaborator whose
  legal moves apply and whose undo restores.
\<close>

theorem getBestMove_null_or_member:
  "(moves game g = [] \<longrightarrow>
      getBestMove fuel shuffle game g depth = Return (None, g)
      \<and> getBestMove10 fuel shuffle game g = Return (None, g)
      \<and> getRandomMove rnd game g = None)
   \<and> (moves game g \<noteq> [] \<and> rnd (length (moves game g)) < length (moves game g) \<longrightarrow>
        (\<exists>m \<in> set (moves game g). getRandomMove rnd game g = Some m))
   \<and> (moves game g \<noteq> [] \<and> legalMovesApply game \<and> undoRestores game
        \<and> mset (shuffle (moves game g)) = mset (moves game g)
        \<and> 1 \<le> depth \<and> nat (depth - 1) < fuel \<longrightarrow>
        (\<exists>m \<in> set (moves game g). getBestMove fuel shuffle game g depth = Return (Some m, g)))
   \<and> (moves game g \<noteq> [] \<and> legalMovesApply game \<and> undoRestores game
        \<and> mset (shuffle (moves game g)) = mset (moves game g) \<and> 2 < fuel \<longrightarrow>
        (\<exists>m \<in> set (moves game g). getBestMove10 fuel shuffle game g = Return (Some m, g)))"
proof (intro conjI impI)
  assume "moves game g = []"
  then show "getBestMove fuel shuffle game g depth = Return (None, g)"
    and "getBestMove10 fuel shuffle game g = Return (None, g)"
    and "getRandomMove rnd game g = None"
    by (simp_all add: getBestMove_def getBestMove10_def getRandomMove_def)
next
  assume "moves game g \<noteq> [] \<and> rnd (length (moves game g)) < length (moves game g)"
  then show "\<exists>m \<in> set (moves game g). getRandomMove rnd game g = Some m"
    by (intro getRandomMove_member) simp_all
next
  assume "moves game g \<noteq> [] \<and> legalMovesApply game \<and> undoRestores game
      \<and> mset (shuffle (moves game g)) = mset (moves game g)
      \<and> 1 \<le> depth \<and> nat (depth - 1) < fuel"
  then show "\<exists>m \<in> set (moves game g). getBestMove fuel shuffle game g depth = Return (Some m, g)"
    by (intro getBestMove_member) simp_all
next
  assume "moves game g \<noteq> [] \<and> legalMovesApply game \<and> undoRestores game
      \<and> mset (shuffle (moves game g)) = mset (moves game g) \<and> 2 < fuel"
  then show "\<exists>m \<in> set (moves game g). getBestMove10 fuel shuffle game g = Return (Some m, g)"
    by (intro getBestMove10_member) simp_all
qed

theorem getBestMove_null_or_member_witness:
  "moves pawnGame [''a'', ''a'', ''b''] = []
   \<and> getBestMove 3 rev pawnGame [''a'', ''a'', ''b''] 2 = Return (None, [''a'', ''a'', ''b''])
   \<and> getBestMove10 3 rev pawnGame [''a'', ''a'', ''b''] = Return (None, [''a'', ''a'', ''b''])
   \<and> getRandomMove (\<lambda>n. n - 1) pawnGame [''a'', ''a'', ''b''] = None
   \<and> moves pawnGame [] \<noteq> []
   \<and> (\<lambda>n. n - 1) (length (moves pawnGame [])) < length (moves pawnGame [])
   \<and> legalMovesApply pawnGame \<and> undoRestores pawnGame
   \<and> mset (rev (moves pawnGame [])) = mset (moves pawnGame [])
   \<and> (1 :: int) \<le> 2 \<and> nat (2 - 1) < (3 :: nat) \<and> (2 :: nat) < 3
   \<and> (\<exists>m \<in> set (moves pawnGame []). getRandomMove (\<lambda>n. n - 1) pawnGame [] = Some m)
   \<and> (\<exists>m \<in> set (moves pawnGame []). getBestMove 3 rev pawnGame [] 2 = Return (Some m, []))
   \<and> (\<exists>m \<in> set (moves pawnGame []). getBestMove10 3 rev pawnGame [] = Return (Some m, []))"
proof -
  note finished = getBestMove_null_or_member [where game = pawnGame
      and g = "[''a'', ''a'', ''b'']" and fuel = 3 and shuffle = rev and depth = 2
      and rnd = "\<lambda>n. n - 1"]
  note start = getBestMove_null_or_member [where game = pawnGame
      and g = "[]" and fuel = 3 and shuffle = rev and depth = 2 and rnd = "\<lambda>n. n - 1"]
  have none: "moves pawnGame [''a'', ''a'', ''b''] = []"
    by (simp add: pawnGame_fields)
  have some: "moves pawnGame [] \<noteq> []"
    by (simp add: pawnGame_fields)
  have index: "(\<lambda>n. n - 1) (length (moves pawnGame [])) < length (moves pawnGame [])"
    by (simp add: pawnGame_fields)
  have perm: "mset (rev (moves pawnGame [])) = mset (moves pawnGame [])"
    by simp
  have depth: "(1 :: int) \<le> 2" and fuel: "nat (2 - 1) < (3 :: nat)" and fuel10: "(2 :: nat) < 3"
    by simp_all
  note f = finished [THEN conjunct1, THEN mp, OF none]
  have f1: "getBestMove 3 rev pawnGame [''a'', ''a'', ''b''] 2 = Return (None, [''a'', ''a'', ''b''])"
    and f2: "getBestMove10 3 rev pawnGame [''a'', ''a'', ''b''] = Return (None, [''a'', ''a'', ''b''])"
    and f3: "getRandomMove (\<lambda>n. n - 1) pawnGame [''a'', ''a'', ''b''] = None"
    using f by simp_all
  have a2: "moves pawnGame [] \<noteq> []
      \<and> (\<lambda>n. n - 1) (length (moves pawnGame [])) < length (moves pawnGame [])"
    using some index by (intro conjI)
  have a3: "moves pawnGame [] \<noteq> [] \<and> legalMovesApply pawnGame \<and> undoRestores pawnGame
      \<and> mset (rev (moves pawnGame [])) = mset (moves pawnGame [])
      \<and> (1 :: int) \<le> 2 \<and> nat (2 - 1) < (3 :: nat)"
    using some pawnGame_legal pawnGame_undo perm depth fuel by (intro conjI)
  have a4: "moves pawnGame [] \<noteq> [] \<and> legalMovesApply pawnGame \<and> undoRestores pawnGame
      \<and> mset (rev (moves pawnGame [])) = mset (moves pawnGame []) \<and> (2 :: nat) < 3"
    using some pawnGame_legal pawnGame_undo perm fuel10 by (intro conjI)
  note s2 = start [THEN conjunct2, THEN conjunct1, THEN mp, OF a2]
  note s3 = start [THEN conjunct2, THEN conjunct2, THEN conjunct1, THEN mp, OF a3]
  note s4 = start [THEN conjunct2, THEN conjunct2, THEN conjunct2, THEN mp, OF a4]
  from none f1 f2 f3 some index pawnGame_legal pawnGame_undo perm depth fuel fuel10 s2 s3 s4
  show ?thesis by (intro conjI)
qed

text \<open>
  C4. With White to move and at least one legal move, \<open>getBestMove\<close> at depth 1 returns,
  for every order the shuffle can produce, a legal move whose resulting position evaluates
  at least as high as the position after any other legal move. The collaborator keeps its
  contract: legal moves apply, undo restores, boards are typed (so every score is a
  number) and moves are non-empty strings (so the best move is truthy in
  \<open>bestMove || moves[0]\<close>).
\<close>

theorem getBestMove_depth1_maximal:
  assumes "legalMovesApply game" and "undoRestores game" and "typedBoards game"
    and "sanMoves game" and "turn game g = W" and "moves game g \<noteq> []"
    and "mset (shuffle (moves game g)) = mset (moves game g)" and "0 < fuel"
  shows "\<exists>m g1. getBestMove fuel shuffle game g 1 = Return (Some m, g)
           \<and> m \<in> set (moves game g) \<and> move game g m = Some g1
           \<and> (\<forall>m' \<in> set (moves game g). \<forall>g'. move game g m' = Some g' \<longrightarrow>
                 js_le (evaluateBoard game g') (evaluateBoard game g1))"
proof -
  let ?ms = "shuffle (moves game g)"
  from assms(8) obtain f where f: "fuel = Suc f" by (cases fuel) simp_all
  from shuffle_set [OF assms(7,6)]
  have same: "set ?ms = set (moves game g)" and nonempty: "?ms \<noteq> []" .
  have finite: "\<And>g. \<exists>x. evaluateBoard game g = Val (Num x)"
    using evaluateBoard_finite [OF assms(3)] .
  have start: "bestSoFar evaluateBoard game g None NegInfinity"
    by (simp add: bestSoFar_def)
  from bestLoop_maximizes [of game evaluateBoard, OF assms(1,2) finite assms(5) _ start, of ?ms f]
    same
  obtain bm bv where loop: "bestLoop (Suc f) evaluateBoard game ?ms g 1 None (Val NegInfinity)
        = Return (bm, g)"
    and best: "bestSoFar evaluateBoard game g bm bv"
    and bound: "\<forall>m' \<in> set (moves game g). \<forall>g'. move game g m' = Some g' \<longrightarrow>
        js_le (evaluateBoard game g') (Val bv)"
    by auto
  from assms(6) obtain m0 where m0: "m0 \<in> set (moves game g)" by (cases "moves game g") auto
  with legalMovesApplyD [OF assms(1)] obtain g0 where g0: "move game g m0 = Some g0" by blast
  from finite obtain x where "evaluateBoard game g0 = Val (Num x)" by blast
  with bound m0 g0 have "Num x \<le> bv" by fastforce
  then have "bv \<noteq> NegInfinity" by auto
  with best obtain m g1 where bm: "bm = Some m" and m: "m \<in> set (moves game g)"
    and g1: "move game g m = Some g1" and score_eq: "evaluateBoard game g1 = Val bv"
    by (auto simp add: bestSoFar_def split: option.splits)
  from m assms(4) have "m \<noteq> []" by (auto simp add: sanMoves_def)
  with loop bm assms(5,6) f
  have "getBestMove fuel shuffle game g 1 = Return (Some m, g)"
    by (simp add: getBestMove_def Let_def js_or_def)
  with m g1 score_eq bound show ?thesis by auto
qed

theorem getBestMove_depth1_maximal_witness:
  "legalMovesApply pawnGame \<and> undoRestores pawnGame \<and> typedBoards pawnGame \<and> sanMoves pawnGame
   \<and> turn pawnGame [] = W \<and> moves pawnGame [] \<noteq> []
   \<and> mset (rev (moves pawnGame [])) = mset (moves pawnGame []) \<and> (0 :: nat) < 1
   \<and> getBestMove 1 rev pawnGame [] 1 = Return (Some ''a'', [])
   \<and> (\<exists>m g1. getBestMove 1 rev pawnGame [] 1 = Return (Some m, [])
         \<and> m \<in> set (moves pawnGame []) \<and> move pawnGame [] m = Some g1
         \<and> (\<forall>m' \<in> set (moves pawnGame []). \<forall>g'. move pawnGame [] m' = Some g' \<longrightarrow>
               js_le (evaluateBoard pawnGame g') (evaluateBoard pawnGame g1)))"
proof -
  have white: "turn pawnGame [] = W" and some: "moves pawnGame [] \<noteq> []"
    by (simp_all add: pawnGame_fields)
  have perm: "mset (rev (moves pawnGame [])) = mset (moves pawnGame [])"
    by simp
  have fuel: "(0 :: nat) < 1" by simp
  note best = getBestMove_depth1_maximal [where game = pawnGame and g = "[]" and shuffle = rev
      and fuel = 1, OF pawnGame_legal pawnGame_undo pawnGame_typed pawnGame_san white some perm
      fuel]
  from pawnGame_legal pawnGame_undo pawnGame_typed pawnGame_san white some perm fuel
    pawnGame_best1 best
  show ?thesis by (intro conjI)
qed

end
